theory Spec2Isabelle
  imports Main "HOL-Library.Word"
begin

section \<open>Data model of lib/VM/JSError.cpp\<close>

text \<open>
  The development embeds the stack-trace capture (\<open>JSError::recordStackTrace\<close>), the
  formatter (\<open>JSError::constructStackTraceString\<close>) and the \<open>stack\<close> accessor pair
  (\<open>JSError::errorStackGetter\<close>, \<open>JSError::errorStackSetter\<close>) of the Hermes VM.
  Heap cells are addressed by natural numbers; a pointer comparison of the source is an
  equality of addresses or of the values pointed to.
\<close>

type_synonym Domain = nat
type_synonym Inst = nat

datatype HermesValue =
    UndefinedV
  | NullV
  | BoolV bool
  | NumberV int
  | StringV string
  | ObjectV nat

datatype ExecutionStatus = EXCEPTION | RETURNED

datatype 'a CallResult = Exception | Returned 'a

text \<open>
  The value a failing call leaves in the runtime: the error of a failed allocation, a
  \<open>TypeError\<close> raised by \<open>raiseTypeError\<close> with its message, or the \<open>TypeError\<close> that
  \<open>toObject\<close> raises.
\<close>

datatype Thrown = RangeErrorT | TypeErrorT string | ToObjectTypeErrorT

record DebugSourceLocation =
  filenameId :: nat
  locLine :: "32 word"
  locColumn :: "32 word"

text \<open>
  A \<open>RuntimeModule\<close> as far as this file reads it: its owning domain
  (\<open>getDomainUnsafe\<close>), its source URL, and the debug information of its bytecode, held
  as the finite tables of the two lookups that the formatter makes.
\<close>

record RuntimeModule =
  getDomainUnsafe :: Domain
  getSourceURL :: string
  debugLocations :: "((nat \<times> 32 word) \<times> DebugSourceLocation) list"
  debugFilenames :: "(nat \<times> string) list"

text \<open>
  Modelled from the spec: the debug-info table is "consumed as an opaque lookup: offset
  \<rightarrow> file/line/column"; its format and the functions \<open>getLocationForAddress\<close> and
  \<open>getFilenameByID\<close> are not among the sources. The first lookup may find no location;
  the second is only applied to the file name id of a location that was found, and
  yields the empty string for an id outside the table.
\<close>

definition getLocationForAddress ::
  "RuntimeModule \<Rightarrow> nat \<Rightarrow> 32 word \<Rightarrow> DebugSourceLocation option" where
  "getLocationForAddress rm debugOffset offset = map_of (debugLocations rm) (debugOffset, offset)"

definition getFilenameByID :: "RuntimeModule \<Rightarrow> nat \<Rightarrow> string" where
  "getFilenameByID rm fid = (case map_of (debugFilenames rm) fid of Some s \<Rightarrow> s | None \<Rightarrow> [])"

text \<open>
  A \<open>CodeBlock\<close>: \<open>getName\<close> is \<open>None\<close> for an invalid \<open>SymbolID\<close> and otherwise the
  string the identifier table holds for it; \<open>bytecodeStart\<close> is the address of its first
  instruction.
\<close>

record CodeBlock =
  getName :: "string option"
  getRuntimeModule :: RuntimeModule
  bytecodeStart :: Inst
  getDebugSourceLocationsOffset :: "nat option"
  getVirtualOffset :: "32 word"

text \<open>
  Modelled from the spec: \<open>CodeBlock::getOffsetOf\<close> is declared in CodeBlock.h, which is
  not among the sources. It gives the unsigned 32-bit offset of an instruction within
  the bytecode of the code block.
\<close>

definition getOffsetOf :: "CodeBlock \<Rightarrow> Inst \<Rightarrow> 32 word" where
  "getOffsetOf cb ip = word_of_nat (ip - bytecodeStart cb)"

record StackTraceInfo =
  codeBlock :: "CodeBlock option"
  bytecodeOffset :: "32 word"

type_synonym StackTrace = "StackTraceInfo list"

text \<open>
  What \<open>JSObject::getNamedDescriptor\<close> finds for the \<open>name\<close> property of a callable:
  nothing, or a descriptor with its accessor flag and the value of its slot.
\<close>

datatype NamedDescriptor = NotFound | Found bool HermesValue

text \<open>
  The callee slot of a frame (\<open>getCalleeClosureOrCBRef\<close>): a callable object, a native
  pointer to a code block, or any other value.
\<close>

datatype CalleeRef = CallableObject NamedDescriptor | NativeCodeBlock CodeBlock | OtherCallee

record StackFrame =
  getSavedCodeBlock :: "CodeBlock option"
  getSavedIP :: Inst
  getCalleeCodeBlock :: "CodeBlock option"
  getCalleeClosureOrCBRef :: CalleeRef

text \<open>
  Own properties of an object. The slot of a property is a plain value or the accessor
  pair shared by all error instances (\<open>Runtime::jsErrorStackAccessor\<close>).
\<close>

datatype PropertySlot = DataSlot HermesValue | StackAccessorSlot

record Property =
  pEnumerable :: bool
  pWritable :: bool
  pConfigurable :: bool
  pSlot :: PropertySlot

record JSObject =
  props :: "string \<rightharpoonup> Property"
  extensible :: bool

text \<open>
  \<open>class JSError : public JSObject\<close> with its three private fields \<open>stacktrace_\<close>,
  \<open>funcNames_\<close> and \<open>domains_\<close> (a field name cannot end in an underscore here, hence the
  suffix); a null pointer is \<open>None\<close>.
\<close>

record JSError = JSObject +
  stacktrace_field :: "StackTrace option"
  funcNames_field :: "HermesValue list option"
  domains_field :: "Domain list option"

datatype Cell = ErrorCell JSError | ObjectCell JSObject

text \<open>
  The runtime as this file uses it. \<open>getStackFrames\<close> lists the live frames, newest
  first. \<open>allocOutcomes\<close> decides the allocating calls that the source checks for
  \<open>ExecutionStatus::EXCEPTION\<close>: each such call consumes the head of the list, \<open>False\<close>
  meaning that the allocation fails; once the list is exhausted every allocation succeeds.
  \<open>toStringOfError\<close> is the outcome of \<open>toString(runtime, selfHandle)\<close> (\<open>None\<close> when it
  raises), \<open>maxStringLength\<close> the longest string \<open>StringPrimitive::create\<close> accepts, and
  \<open>debuggerEnabled\<close> the build flag \<open>HERMES_ENABLE_DEBUGGER\<close>.
\<close>

record Runtime =
  getStackFrames :: "StackFrame list"
  thrownValue :: "Thrown option"
  allocOutcomes :: "bool list"
  heapCells :: "nat \<Rightarrow> Cell"
  nextAddr :: nat
  toStringOfError :: "JSError \<Rightarrow> string option"
  maxStringLength :: nat
  debuggerEnabled :: bool

definition clearThrownValue :: "Runtime \<Rightarrow> Runtime" where
  "clearThrownValue rt = rt\<lparr>thrownValue := None\<rparr>"

definition allocate :: "Runtime \<Rightarrow> bool \<times> Runtime" where
  "allocate rt =
     (case allocOutcomes rt of
        [] \<Rightarrow> (True, rt)
      | ok # rest \<Rightarrow> (ok, rt\<lparr>allocOutcomes := rest\<rparr>))"

section \<open>Array storage\<close>

text \<open>
  Modelled from the spec: \<open>ArrayStorage\<close> (and its alias \<open>PropStorage\<close>) is declared in
  ArrayStorage.h, which is not among the sources. A storage is the list of its elements;
  \<open>create\<close> yields an empty storage of the requested capacity, \<open>push_back\<close> appends one
  element, \<open>resize\<close> truncates or pads with empty values; each of them
  "may fail under memory pressure", in which case it raises and returns
  \<open>EXCEPTION\<close>.
\<close>

definition ArrayStorage_create :: "Runtime \<Rightarrow> nat \<Rightarrow> 'a list CallResult \<times> Runtime" where
  "ArrayStorage_create rt capacity =
     (case allocate rt of
        (True, rt') \<Rightarrow> (Returned [], rt')
      | (False, rt') \<Rightarrow> (Exception, rt'\<lparr>thrownValue := Some RangeErrorT\<rparr>))"

definition ArrayStorage_push_back ::
  "Runtime \<Rightarrow> 'a list \<Rightarrow> 'a \<Rightarrow> 'a list CallResult \<times> Runtime" where
  "ArrayStorage_push_back rt xs x =
     (case allocate rt of
        (True, rt') \<Rightarrow> (Returned (xs @ [x]), rt')
      | (False, rt') \<Rightarrow> (Exception, rt'\<lparr>thrownValue := Some RangeErrorT\<rparr>))"

definition PropStorage_resize ::
  "Runtime \<Rightarrow> HermesValue list \<Rightarrow> nat \<Rightarrow> HermesValue list CallResult \<times> Runtime" where
  "PropStorage_resize rt xs n =
     (case allocate rt of
        (True, rt') \<Rightarrow> (Returned (take n xs @ replicate (n - length xs) UndefinedV), rt')
      | (False, rt') \<Rightarrow> (Exception, rt'\<lparr>thrownValue := Some RangeErrorT\<rparr>))"

section \<open>getCallStackFunctionNames\<close>

text \<open>The name recorded for one frame (the body of the loop before the resize).\<close>

definition frameFunctionName :: "StackFrame \<Rightarrow> HermesValue" where
  "frameFunctionName cf =
     (case getCalleeClosureOrCBRef cf of
        CallableObject d \<Rightarrow>
          (case d of
             NotFound \<Rightarrow> UndefinedV
           | Found accessor v \<Rightarrow> if \<not> accessor then v else UndefinedV)
      | NativeCodeBlock cb \<Rightarrow>
          (case getName cb of Some s \<Rightarrow> StringV s | None \<Rightarrow> UndefinedV)
      | OtherCallee \<Rightarrow> UndefinedV)"

text \<open>
  The loop over the live frames. \<open>frameIndex\<close> and \<open>namesIndex\<close> are the two counters
  of the source; they are \<open>uint32_t\<close> there and natural numbers here, the number of live
  frames being bounded by the register stack far below \<open>2^32\<close>. A failing resize clears
  the thrown value and yields the null handle.
\<close>

fun namesLoop ::
  "Runtime \<Rightarrow> bool \<Rightarrow> StackFrame list \<Rightarrow> nat \<Rightarrow> nat \<Rightarrow> HermesValue list
     \<Rightarrow> HermesValue list option \<times> Runtime" where
  "namesLoop rt skipTopFrame [] frameIndex namesIndex names = (Some names, rt)"
| "namesLoop rt skipTopFrame (cf # cfs) frameIndex namesIndex names =
     (if frameIndex = 0 \<and> skipTopFrame
      then namesLoop rt skipTopFrame cfs (frameIndex + 1) namesIndex names
      else
        (case PropStorage_resize rt names (namesIndex + 1) of
           (Exception, rt') \<Rightarrow> (None, clearThrownValue rt')
         | (Returned names', rt') \<Rightarrow>
             namesLoop rt' skipTopFrame cfs (frameIndex + 1) (namesIndex + 1)
               (names'[namesIndex := frameFunctionName cf])))"

definition getCallStackFunctionNames ::
  "Runtime \<Rightarrow> bool \<Rightarrow> nat \<Rightarrow> HermesValue list option \<times> Runtime" where
  "getCallStackFunctionNames rt skipTopFrame sizeHint =
     (case ArrayStorage_create rt sizeHint of
        (Exception, rt') \<Rightarrow> (None, clearThrownValue rt')
      | (Returned names, rt') \<Rightarrow>
          namesLoop rt' skipTopFrame (getStackFrames rt') 0 0 names)"

section \<open>recordStackTrace\<close>

text \<open>
  The lambda \<open>addDomain\<close>: the domain of the code block is appended unless it equals the
  last element of the list.
\<close>

definition addDomain ::
  "Runtime \<Rightarrow> Domain list \<Rightarrow> CodeBlock \<Rightarrow> ExecutionStatus \<times> Domain list \<times> Runtime" where
  "addDomain rt domains cb =
     (let domainPtr = getDomainUnsafe (getRuntimeModule cb)
      in if length domains > 0 \<and> domains ! (length domains - 1) = domainPtr
         then (RETURNED, domains, rt)
         else (case ArrayStorage_push_back rt domains domainPtr of
                 (Exception, rt') \<Rightarrow> (EXCEPTION, domains, rt')
               | (Returned domains', rt') \<Rightarrow> (RETURNED, domains', rt')))"

text \<open>The entry for the current point, pushed when the top frame is not skipped.\<close>

definition pushTopEntry ::
  "Runtime \<Rightarrow> bool \<Rightarrow> CodeBlock option \<Rightarrow> Inst \<Rightarrow> StackTrace \<Rightarrow> Domain list
     \<Rightarrow> ExecutionStatus \<times> StackTrace \<times> Domain list \<times> Runtime" where
  "pushTopEntry rt skipTopFrame cbOpt ip stack domains =
     (if \<not> skipTopFrame
      then (case cbOpt of
              Some cb \<Rightarrow>
                (case addDomain rt domains cb of
                   (st, domains', rt') \<Rightarrow>
                     (st, stack @ [\<lparr>codeBlock = Some cb, bytecodeOffset = getOffsetOf cb ip\<rparr>],
                      domains', rt'))
            | None \<Rightarrow>
                (RETURNED, stack @ [\<lparr>codeBlock = None, bytecodeOffset = 0\<rparr>], domains, rt))
      else (RETURNED, stack, domains, rt))"

text \<open>
  The loop that fills in the call stack: one entry per live frame, holding the saved
  (caller's) code block and offset.
\<close>

definition savedEntry :: "StackFrame \<Rightarrow> StackTraceInfo" where
  "savedEntry cf =
     \<lparr>codeBlock = getSavedCodeBlock cf,
      bytecodeOffset =
        (case getSavedCodeBlock cf of
           Some cb \<Rightarrow> getOffsetOf cb (getSavedIP cf)
         | None \<Rightarrow> 0)\<rparr>"

fun walkFrames ::
  "Runtime \<Rightarrow> StackFrame list \<Rightarrow> StackTrace \<Rightarrow> Domain list
     \<Rightarrow> ExecutionStatus \<times> StackTrace \<times> Domain list \<times> Runtime" where
  "walkFrames rt [] stack domains = (RETURNED, stack, domains, rt)"
| "walkFrames rt (cf # cfs) stack domains =
     (let stack' = stack @ [savedEntry cf]
      in case getSavedCodeBlock cf of
           Some cb \<Rightarrow>
             (case addDomain rt domains cb of
                (EXCEPTION, domains', rt') \<Rightarrow> (EXCEPTION, stack', domains', rt')
              | (RETURNED, domains', rt') \<Rightarrow> walkFrames rt' cfs stack' domains')
         | None \<Rightarrow> walkFrames rt cfs stack' domains)"

text \<open>
  The construction of the trace sequence: the allocation of the domain list, the entry
  for the current point, and the walk.
\<close>

definition buildTrace ::
  "Runtime \<Rightarrow> bool \<Rightarrow> CodeBlock option \<Rightarrow> Inst
     \<Rightarrow> ExecutionStatus \<times> StackTrace \<times> Domain list \<times> Runtime" where
  "buildTrace rt skipTopFrame cbOpt ip =
     (case ArrayStorage_create rt 1 of
        (Exception, rt1) \<Rightarrow> (EXCEPTION, [], [], rt1)
      | (Returned domains, rt1) \<Rightarrow>
          (case pushTopEntry rt1 skipTopFrame cbOpt ip [] domains of
             (EXCEPTION, stack, domains', rt2) \<Rightarrow> (EXCEPTION, stack, domains', rt2)
           | (RETURNED, stack, domains', rt2) \<Rightarrow>
               walkFrames rt2 (getStackFrames rt2) stack domains'))"

text \<open>
  The guard on the top frame: it is a script function and the caller supplied no code
  block.
\<close>

definition topFrameIsJSFunction :: "Runtime \<Rightarrow> bool" where
  "topFrameIsJSFunction rt =
     (case getStackFrames rt of
        [] \<Rightarrow> False
      | cf # _ \<Rightarrow> getCalleeCodeBlock cf \<noteq> None)"

text \<open>
  \<open>recordStackTrace\<close> returns the status, the error object as the call leaves it and
  the runtime. \<open>stack->pop_back()\<close> on an empty vector has no defined behaviour; that
  outcome is \<open>None\<close>. The local \<open>domains\<close> is not stored anywhere before the function
  returns.
\<close>

definition recordStackTrace ::
  "Runtime \<Rightarrow> JSError \<Rightarrow> bool \<Rightarrow> CodeBlock option \<Rightarrow> Inst
     \<Rightarrow> (ExecutionStatus \<times> JSError \<times> Runtime) option" where
  "recordStackTrace rt self skipTopFrame cbOpt ip =
     (if stacktrace_field self \<noteq> None then Some (RETURNED, self, rt)
      else if \<not> skipTopFrame \<and> cbOpt = None \<and> topFrameIsJSFunction rt
      then Some (RETURNED, self, rt)
      else
        (case buildTrace rt skipTopFrame cbOpt ip of
           (EXCEPTION, stack, domains, rt') \<Rightarrow> Some (EXCEPTION, self, rt')
         | (RETURNED, stack, domains, rt') \<Rightarrow>
             (if stack = [] then None
              else
                (let stack' = butlast stack
                 in case getCallStackFunctionNames rt' skipTopFrame (length stack') of
                      (funcNames, rt'') \<Rightarrow>
                        Some (RETURNED,
                              self\<lparr>stacktrace_field := Some stack', funcNames_field := funcNames\<rparr>,
                              rt'')))))"

section \<open>constructStackTraceString\<close>

text \<open>
  Modelled from the spec: \<open>numberToString\<close> is declared in the support library, which
  is not among the sources. The formatter calls it on a count of frames and on 32-bit
  line and column numbers only; for these integers it yields the decimal numeral, with a
  leading minus sign for a negative number, as in \<open>"... skipping 30 frames"\<close>.
\<close>

definition digitChar :: "nat \<Rightarrow> char" where
  "digitChar d = ''0123456789'' ! d"

function decimalDigits :: "nat \<Rightarrow> string" where
  "decimalDigits n =
     (if n < 10 then [digitChar n]
      else decimalDigits (n div 10) @ [digitChar (n mod 10)])"
  by pat_completeness auto
termination
  by (relation "measure id") auto

declare decimalDigits.simps [simp del]

definition numberToString :: "int \<Rightarrow> string" where
  "numberToString i =
     (if i < 0 then CHR ''-'' # decimalDigits (nat (- i)) else decimalDigits (nat i))"

definition getDebugInfo :: "CodeBlock \<Rightarrow> 32 word \<Rightarrow> DebugSourceLocation option" where
  "getDebugInfo cb offset =
     (case getDebugSourceLocationsOffset cb of
        None \<Rightarrow> None
      | Some off \<Rightarrow> getLocationForAddress (getRuntimeModule cb) off offset)"

text \<open>The test \<open>!name || name->getStringLength() == 0\<close> on a string handle.\<close>

definition nameIsEmpty :: "string option \<Rightarrow> bool" where
  "nameIsEmpty name = (case name of None \<Rightarrow> True | Some s \<Rightarrow> s = [])"

text \<open>
  \<open>appendFunctionNameAtIndex\<close> yields the name it appends, or \<open>None\<close> where the source
  returns false. The outer \<open>None\<close> stands for a read outside \<open>funcNames_\<close> or
  \<open>stacktrace_\<close> (the assertion of the source, and \<open>at\<close> on a null or too short vector),
  where the source has no defined result.
\<close>

definition appendFunctionNameAtIndex :: "JSError \<Rightarrow> nat \<Rightarrow> string option option" where
  "appendFunctionNameAtIndex self index =
     (case (case funcNames_field self of
              None \<Rightarrow> Some (Some [])
            | Some names \<Rightarrow>
                if index < length names
                then Some (case names ! index of StringV s \<Rightarrow> Some s | _ \<Rightarrow> None)
                else None) of
        None \<Rightarrow> None
      | Some name \<Rightarrow>
          (case (if nameIsEmpty name
                 then (case stacktrace_field self of
                         None \<Rightarrow> None
                       | Some trace \<Rightarrow>
                           if index < length trace
                           then Some (case codeBlock (trace ! index) of
                                        Some cb \<Rightarrow> getName cb
                                      | None \<Rightarrow> name)
                           else None)
                 else Some name) of
             None \<Rightarrow> None
           | Some name' \<Rightarrow> Some (if nameIsEmpty name' then None else name')))"

definition PRINT_HEAD :: nat where
  "PRINT_HEAD = 50"

definition PRINT_TAIL :: nat where
  "PRINT_TAIL = 50"

text \<open>
  What one iteration of the loop appends for the entry \<open>sti\<close> at \<open>index\<close>, together
  with the cache of virtual offsets (\<open>virtualOffsetCache\<close>, keyed by code block) as the
  iteration leaves it. Line and column are \<open>int32_t\<close> in the source: the 32-bit values
  are printed as signed numbers.
\<close>

definition appendFrame ::
  "(CodeBlock \<rightharpoonup> 32 word) \<Rightarrow> JSError \<Rightarrow> StackTraceInfo \<Rightarrow> nat
     \<Rightarrow> (string \<times> (CodeBlock \<rightharpoonup> 32 word)) option" where
  "appendFrame cache self sti index =
     (case appendFunctionNameAtIndex self index of
        None \<Rightarrow> None
      | Some name \<Rightarrow>
          (let start = ''\<newline>    at '' @ (case name of Some s \<Rightarrow> s | None \<Rightarrow> ''anonymous'')
           in case codeBlock sti of
                None \<Rightarrow> Some (start @ '' (native)'', cache)
              | Some cb \<Rightarrow>
                  (case getDebugInfo cb (bytecodeOffset sti) of
                     Some location \<Rightarrow>
                       Some (start @ '' (''
                               @ getFilenameByID (getRuntimeModule cb) (filenameId location)
                               @ '':'' @ numberToString (sint (locLine location))
                               @ '':'' @ numberToString (sint (locColumn location))
                               @ '')'',
                             cache)
                   | None \<Rightarrow>
                       (let virtualOffset =
                              (case cache cb of
                                 Some v \<Rightarrow> v
                               | None \<Rightarrow> getVirtualOffset cb);
                            columnNo = bytecodeOffset sti + virtualOffset;
                            sourceURL = getSourceURL (getRuntimeModule cb)
                        in Some (start @ '' ('' @ ''address at ''
                                   @ (if sourceURL = [] then ''unknown'' else sourceURL)
                                   @ '':'' @ numberToString 1
                                   @ '':'' @ numberToString (sint columnNo)
                                   @ '')'',
                                 cache(cb \<mapsto> virtualOffset))))))"

text \<open>
  The loop over the trace. Its result lists, in order, what the iterations appended to
  the string: the line of a frame (with the index of the entry that was formatted) or
  the line about skipped frames. \<open>mx\<close> is the size of the trace (\<open>max\<close> in the source); \<open>index\<close> is advanced
  by the loop header after every iteration, also after a \<open>continue\<close>.
\<close>

datatype Appended = FrameLine nat string | SkipLine string

function stackTraceLoop ::
  "JSError \<Rightarrow> StackTrace \<Rightarrow> (CodeBlock \<rightharpoonup> 32 word) \<Rightarrow> nat \<Rightarrow> nat
     \<Rightarrow> Appended list option" where
  "stackTraceLoop self trace cache index mx =
     (if index < mx
      then
        (if mx > PRINT_HEAD + PRINT_TAIL \<and> index = PRINT_HEAD
         then
           (case stackTraceLoop self trace cache (index + 1) mx of
              None \<Rightarrow> None
            | Some rest \<Rightarrow>
                Some (SkipLine (''\<newline>    ... skipping ''
                                 @ numberToString (int (mx - PRINT_HEAD - PRINT_TAIL))
                                 @ '' frames'') # rest))
         else
           (let index' =
                  (if mx > PRINT_HEAD + PRINT_TAIL \<and> index > PRINT_HEAD
                        \<and> index < mx - PRINT_TAIL
                   then mx - PRINT_TAIL else index)
            in if index' < length trace
               then
                 (case appendFrame cache self (trace ! index') index' of
                    None \<Rightarrow> None
                  | Some (line, cache') \<Rightarrow>
                      (case stackTraceLoop self trace cache' (index' + 1) mx of
                         None \<Rightarrow> None
                       | Some rest \<Rightarrow> Some (FrameLine index' line # rest)))
               else None))
      else Some [])"
  by pat_completeness auto
termination
  by (relation "measure (\<lambda>(self, trace, cache, index, mx). mx - index)")
     (auto simp: PRINT_HEAD_def PRINT_TAIL_def)

declare stackTraceLoop.simps [simp del]

fun appendedText :: "Appended \<Rightarrow> string" where
  "appendedText (FrameLine index line) = line"
| "appendedText (SkipLine line) = line"



text \<open>The lines after the header; \<open>None\<close> when \<open>stacktrace_\<close> is null.\<close>

definition stackTraceLines :: "JSError \<Rightarrow> Appended list option" where
  "stackTraceLines self =
     (case stacktrace_field self of
        None \<Rightarrow> None
      | Some trace \<Rightarrow> stackTraceLoop self trace Map.empty 0 (length trace))"

text \<open>
  \<open>constructStackTraceString\<close>: the header is the error converted to a string, or
  \<open><error>\<close> when the conversion raises (the exception is cleared); the lines follow.
\<close>

definition constructStackTraceString :: "Runtime \<Rightarrow> JSError \<Rightarrow> (string \<times> Runtime) option" where
  "constructStackTraceString rt self =
     (case (case toStringOfError rt self of
              None \<Rightarrow> (''<error>'', clearThrownValue rt)
            | Some s \<Rightarrow> (s, rt)) of
        (header, rt') \<Rightarrow>
          (case stackTraceLines self of
             None \<Rightarrow> None
           | Some lines \<Rightarrow> Some (header @ concat (map appendedText lines), rt')))"

section \<open>The stack accessor\<close>

record DefinePropertyFlags =
  setEnumerable :: bool
  enumerable :: bool
  setWritable :: bool
  writable :: bool
  setConfigurable :: bool
  configurable :: bool
  setGetter :: bool
  setSetter :: bool
  setValue :: bool

text \<open>
  Modelled from the spec: \<open>DefinePropertyFlags::getDefaultNewPropertyFlags\<close> is declared
  in PropertyDescriptor.h, which is not among the sources. It describes a plain value
  slot: enumerable, writable and configurable, with a value and no accessor; the
  accessor functions then clear \<open>enumerable\<close> to obtain the "plain, non-enumerable value
  slot".
\<close>

definition getDefaultNewPropertyFlags :: DefinePropertyFlags where
  "getDefaultNewPropertyFlags =
     \<lparr>setEnumerable = True, enumerable = True, setWritable = True, writable = True,
      setConfigurable = True, configurable = True, setGetter = False, setSetter = False,
      setValue = True\<rparr>"

definition cellProps :: "Cell \<Rightarrow> string \<rightharpoonup> Property" where
  "cellProps c = (case c of ErrorCell e \<Rightarrow> props e | ObjectCell ob \<Rightarrow> props ob)"

definition cellExtensible :: "Cell \<Rightarrow> bool" where
  "cellExtensible c = (case c of ErrorCell e \<Rightarrow> extensible e | ObjectCell ob \<Rightarrow> extensible ob)"

definition setCellProps :: "Cell \<Rightarrow> (string \<rightharpoonup> Property) \<Rightarrow> Cell" where
  "setCellProps c ps =
     (case c of
        ErrorCell e \<Rightarrow> ErrorCell (e\<lparr>props := ps\<rparr>)
      | ObjectCell ob \<Rightarrow> ObjectCell (ob\<lparr>props := ps\<rparr>))"

text \<open>The property that a definition with the given flags and slot installs.\<close>

definition definedProperty ::
  "DefinePropertyFlags \<Rightarrow> PropertySlot \<Rightarrow> Property option \<Rightarrow> Property" where
  "definedProperty dpf slot old =
     \<lparr>pEnumerable =
        (if setEnumerable dpf then enumerable dpf
         else (case old of Some p \<Rightarrow> pEnumerable p | None \<Rightarrow> False)),
      pWritable =
        (if setWritable dpf then writable dpf
         else (case old of Some p \<Rightarrow> pWritable p | None \<Rightarrow> False)),
      pConfigurable =
        (if setConfigurable dpf then configurable dpf
         else (case old of Some p \<Rightarrow> pConfigurable p | None \<Rightarrow> False)),
      pSlot = slot\<rparr>"

text \<open>
  Modelled from the spec: \<open>JSObject::defineOwnProperty\<close> is defined in JSObject.cpp, which
  is not among the sources. It is the primitive "define-own-property with flags
  (enumerable, configurable, has-getter, has-setter)", with the meaning these flags have
  in ECMAScript for the definitions made in this file, all of which ask for a
  configurable property: an own property that is not configurable is left as it is, as
  is an object that lacks the property and is not extensible, and the call returns
  false; otherwise the property is (re)defined with the given flags and slot and the
  call returns true. The callers test the result for \<open>EXCEPTION\<close>: a definition that is
  carried out allocates and fails when the allocation does.
\<close>

definition defineOwnProperty ::
  "Runtime \<Rightarrow> nat \<Rightarrow> string \<Rightarrow> DefinePropertyFlags \<Rightarrow> PropertySlot
     \<Rightarrow> bool CallResult \<times> Runtime" where
  "defineOwnProperty rt addr name dpf slot =
     (let cell = heapCells rt addr;
          old = cellProps cell name;
          allowed = (case old of
                       Some p \<Rightarrow> pConfigurable p
                     | None \<Rightarrow> cellExtensible cell)
      in if \<not> allowed then (Returned False, rt)
         else (case allocate rt of
                 (False, rt') \<Rightarrow> (Exception, rt'\<lparr>thrownValue := Some RangeErrorT\<rparr>)
               | (True, rt') \<Rightarrow>
                   (Returned True,
                    rt'\<lparr>heapCells := (heapCells rt')
                          (addr := setCellProps cell
                                     ((cellProps cell)(name \<mapsto> definedProperty dpf slot old)))\<rparr>)))"

definition raiseTypeError :: "Runtime \<Rightarrow> string \<Rightarrow> 'a CallResult \<times> Runtime" where
  "raiseTypeError rt msg = (Exception, rt\<lparr>thrownValue := Some (TypeErrorT msg)\<rparr>)"

text \<open>
  Modelled from the spec: \<open>toObject\<close> is declared in Operations.h, which is not among the
  sources. It is the conversion ToObject of ECMAScript: \<open>undefined\<close> and \<open>null\<close> raise a
  \<open>TypeError\<close>, an object is returned as it is, and any other primitive value is wrapped
  in a new object, allocated here at \<open>nextAddr\<close>.
\<close>

definition toObject :: "Runtime \<Rightarrow> HermesValue \<Rightarrow> nat CallResult \<times> Runtime" where
  "toObject rt v =
     (case v of
        UndefinedV \<Rightarrow> (Exception, rt\<lparr>thrownValue := Some ToObjectTypeErrorT\<rparr>)
      | NullV \<Rightarrow> (Exception, rt\<lparr>thrownValue := Some ToObjectTypeErrorT\<rparr>)
      | ObjectV a \<Rightarrow> (Returned a, rt)
      | _ \<Rightarrow>
          (Returned (nextAddr rt),
           rt\<lparr>heapCells := (heapCells rt)
                  (nextAddr rt := ObjectCell \<lparr>props = Map.empty, extensible = True\<rparr>),
               nextAddr := Suc (nextAddr rt)\<rparr>))"

record NativeArgs =
  getThisArg :: HermesValue
  argList :: "HermesValue list"

definition getArg :: "NativeArgs \<Rightarrow> nat \<Rightarrow> HermesValue" where
  "getArg args i = (if i < length (argList args) then argList args ! i else UndefinedV)"

text \<open>
  \<open>dyn_vmcast<JSError>\<close>: the error object a value refers to, with its address, if it
  refers to one.
\<close>

definition dyn_vmcast_JSError :: "Runtime \<Rightarrow> HermesValue \<Rightarrow> (nat \<times> JSError) option" where
  "dyn_vmcast_JSError rt v =
     (case v of
        ObjectV a \<Rightarrow>
          (case heapCells rt a of ErrorCell e \<Rightarrow> Some (a, e) | ObjectCell _ \<Rightarrow> None)
      | _ \<Rightarrow> None)"

text \<open>The flags both accessor functions pass: the default ones, not enumerable.\<close>

definition plainNonEnumerable :: DefinePropertyFlags where
  "plainNonEnumerable = getDefaultNewPropertyFlags\<lparr>setEnumerable := True, enumerable := False\<rparr>"

text \<open>
  \<open>errorStackGetter\<close>. The string \<open>Predefined::stacktraceTooLong\<close> is not in these
  sources and is taken from the spec ("stack trace too long"); \<open>StringPrimitive::create\<close>
  fails on a string longer than \<open>maxStringLength\<close>. The result is \<open>None\<close> where the
  formatter has no defined result. The message of the type error is the one of the
  source, with its single quotes written as character codes.
\<close>

definition getterTypeErrorMessage :: string where
  "getterTypeErrorMessage =
     ''Error.stack accessor '' @ [CHR 0x27] @ ''this'' @ [CHR 0x27]
       @ '' must be an instance of '' @ [CHR 0x27] @ ''Error'' @ [CHR 0x27]"

definition errorStackGetter ::
  "Runtime \<Rightarrow> NativeArgs \<Rightarrow> (HermesValue CallResult \<times> Runtime) option" where
  "errorStackGetter rt args =
     (case dyn_vmcast_JSError rt (getThisArg args) of
        None \<Rightarrow>
          Some (raiseTypeError rt getterTypeErrorMessage)
      | Some (a, self) \<Rightarrow>
          (if stacktrace_field self = None then Some (Returned (StringV []), rt)
           else
             (case constructStackTraceString rt self of
                None \<Rightarrow> None
              | Some (stack, rt1) \<Rightarrow>
                  (let self' = (if debuggerEnabled rt1 then self
                                else self\<lparr>stacktrace_field := None\<rparr>);
                       rt2 = rt1\<lparr>heapCells := (heapCells rt1)(a := ErrorCell self')\<rparr>;
                       created =
                         (if length stack > maxStringLength rt2
                          then (StringV ''stack trace too long'', clearThrownValue rt2)
                          else (StringV stack, rt2))
                   in case created of
                        (stacktraceStr, rt3) \<Rightarrow>
                          (case defineOwnProperty rt3 a ''stack'' plainNonEnumerable
                                  (DataSlot stacktraceStr) of
                             (Exception, rt4) \<Rightarrow> Some (Exception, rt4)
                           | (Returned _, rt4) \<Rightarrow> Some (Returned stacktraceStr, rt4))))))"

text \<open>
  \<open>errorStackSetter\<close>: the trace of an error receiver is released, the receiver is
  converted with \<open>toObject\<close>, and \<open>stack\<close> is defined on the result with the first
  argument as its value.
\<close>

definition errorStackSetter ::
  "Runtime \<Rightarrow> NativeArgs \<Rightarrow> HermesValue CallResult \<times> Runtime" where
  "errorStackSetter rt args =
     (let rt1 =
            (case dyn_vmcast_JSError rt (getThisArg args) of
               Some (a, errorObject) \<Rightarrow>
                 (if stacktrace_field errorObject \<noteq> None
                  then rt\<lparr>heapCells := (heapCells rt)
                            (a := ErrorCell (errorObject\<lparr>stacktrace_field := None\<rparr>))\<rparr>
                  else rt)
             | None \<Rightarrow> rt)
      in case toObject rt1 (getThisArg args) of
           (Exception, rt2) \<Rightarrow> (Exception, rt2)
         | (Returned selfAddr, rt2) \<Rightarrow>
             (case defineOwnProperty rt2 selfAddr ''stack'' plainNonEnumerable
                     (DataSlot (getArg args 0)) of
                (Exception, rt3) \<Rightarrow> (Exception, rt3)
              | (Returned _, rt3) \<Rightarrow> (Returned UndefinedV, rt3)))"

text \<open>
  Modelled from the spec: a read of the \<open>stack\<close> property of the object at an address
  ("readable and writable by scripts through ordinary property access"); the property
  lookup itself is not among the sources. A plain value slot yields its value, the
  shared accessor calls the getter on the object, and an object without an own
  \<open>stack\<close> property yields \<open>undefined\<close> here (the prototype chain is not followed).
\<close>

definition readStack :: "Runtime \<Rightarrow> nat \<Rightarrow> (HermesValue CallResult \<times> Runtime) option" where
  "readStack rt a =
     (case cellProps (heapCells rt a) ''stack'' of
        None \<Rightarrow> Some (Returned UndefinedV, rt)
      | Some p \<Rightarrow>
          (case pSlot p of
             DataSlot v \<Rightarrow> Some (Returned v, rt)
           | StackAccessorSlot \<Rightarrow>
               errorStackGetter rt \<lparr>getThisArg = ObjectV a, argList = []\<rparr>))"

text \<open>
  Whether \<open>defineOwnProperty\<close> carries out a definition of \<open>stack\<close> on a cell (the
  property is configurable, or absent from an extensible object), and whether the next
  allocation of the runtime succeeds.
\<close>

definition stackDefinable :: "Cell \<Rightarrow> bool" where
  "stackDefinable c =
     (case cellProps c ''stack'' of
        Some p \<Rightarrow> pConfigurable p
      | None \<Rightarrow> cellExtensible c)"

definition nextAllocationSucceeds :: "Runtime \<Rightarrow> bool" where
  "nextAllocationSucceeds rt = (case allocOutcomes rt of [] \<Rightarrow> True | ok # _ \<Rightarrow> ok)"

text \<open>The plain, non-enumerable value slot holding a value.\<close>

definition plainSlot :: "HermesValue \<Rightarrow> Property" where
  "plainSlot v =
     \<lparr>pEnumerable = False, pWritable = True, pConfigurable = True, pSlot = DataSlot v\<rparr>"

text \<open>
  For stating properties of the walk: the owning domains of the saved code blocks of a
  frame sequence, in walk order, and the sequence \<open>a, b, a, b, ...\<close> of a given length.
\<close>

definition savedDomains :: "StackFrame list \<Rightarrow> Domain list" where
  "savedDomains frames =
     concat (map (\<lambda>cf. case getSavedCodeBlock cf of
                          None \<Rightarrow> []
                        | Some cb \<Rightarrow> [getDomainUnsafe (getRuntimeModule cb)]) frames)"

fun alternate :: "Domain \<Rightarrow> Domain \<Rightarrow> nat \<Rightarrow> Domain list" where
  "alternate a b 0 = []"
| "alternate a b (Suc n) = a # alternate b a n"

text \<open>
  The number of live frames that \<open>getCallStackFunctionNames\<close> names: all of them, or
  all but the top one.
\<close>

definition namedFrames :: "Runtime \<Rightarrow> bool \<Rightarrow> nat" where
  "namedFrames rt skipTopFrame =
     (if skipTopFrame then length (getStackFrames rt) - 1 else length (getStackFrames rt))"

text \<open>
  The entries that precede the walked frames in the trace: the entry for the current
  point, unless the top frame is skipped.
\<close>

definition topEntries :: "bool \<Rightarrow> CodeBlock option \<Rightarrow> Inst \<Rightarrow> StackTrace" where
  "topEntries skipTopFrame cbOpt ip =
     (if skipTopFrame then []
      else [\<lparr>codeBlock = cbOpt,
             bytecodeOffset = (case cbOpt of Some cb \<Rightarrow> getOffsetOf cb ip | None \<Rightarrow> 0)\<rparr>])"

text \<open>
  The number of allocation requests that the construction of the trace sequence makes
  when none of them fails: one for the domain list, and one for each domain appended,
  that is for each run of equal adjacent domains among the code blocks of the entry for
  the current point and of the walked frames.
\<close>

definition topDomains :: "bool \<Rightarrow> CodeBlock option \<Rightarrow> Domain list" where
  "topDomains skipTopFrame cbOpt =
     (if skipTopFrame then []
      else (case cbOpt of
              None \<Rightarrow> []
            | Some cb \<Rightarrow> [getDomainUnsafe (getRuntimeModule cb)]))"

definition traceAllocations :: "Runtime \<Rightarrow> bool \<Rightarrow> CodeBlock option \<Rightarrow> nat" where
  "traceAllocations rt skipTopFrame cbOpt =
     Suc (length (remdups_adj
            (topDomains skipTopFrame cbOpt @ savedDomains (getStackFrames rt))))"

text \<open>
  The number of domains still to be appended to a domain list \<open>ds\<close> when the domains
  \<open>new\<close> are offered to \<open>addDomain\<close> one after the other.
\<close>

definition pendingAppends :: "Domain list \<Rightarrow> Domain list \<Rightarrow> nat" where
  "pendingAppends ds new =
     length (if ds = [] then remdups_adj new else tl (remdups_adj (last ds # new)))"

text \<open>
  A frame whose function name cannot be resolved: the callee has no \<open>name\<close> property
  or one that is an accessor, is a code block without a valid name, or is neither a
  callable nor a code block.
\<close>

definition nameUnresolved :: "StackFrame \<Rightarrow> bool" where
  "nameUnresolved cf =
     (case getCalleeClosureOrCBRef cf of
        CallableObject d \<Rightarrow> (case d of NotFound \<Rightarrow> True | Found accessor v \<Rightarrow> accessor)
      | NativeCodeBlock cb \<Rightarrow> getName cb = None
      | OtherCallee \<Rightarrow> True)"

text \<open>The live frames that \<open>getCallStackFunctionNames\<close> names, in order.\<close>

definition namedFrameList :: "Runtime \<Rightarrow> bool \<Rightarrow> StackFrame list" where
  "namedFrameList rt skipTopFrame =
     (if skipTopFrame then tl (getStackFrames rt) else getStackFrames rt)"

section \<open>Concrete inputs\<close>

text \<open>Small concrete states on which the theorems below are instantiated.\<close>

definition exampleModule :: "Domain \<Rightarrow> RuntimeModule" where
  "exampleModule d =
     \<lparr>getDomainUnsafe = d, getSourceURL = ''main.js'',
      debugLocations = [], debugFilenames = []\<rparr>"

definition exampleCodeBlock :: "Domain \<Rightarrow> CodeBlock" where
  "exampleCodeBlock d =
     \<lparr>getName = Some ''f'', getRuntimeModule = exampleModule d,
      bytecodeStart = 0, getDebugSourceLocationsOffset = None,
      getVirtualOffset = 0\<rparr>"

definition scriptFrame :: "Domain \<Rightarrow> StackFrame" where
  "scriptFrame d =
     \<lparr>getSavedCodeBlock = Some (exampleCodeBlock d), getSavedIP = 0,
      getCalleeCodeBlock = Some (exampleCodeBlock d),
      getCalleeClosureOrCBRef = CallableObject (Found False (StringV ''f''))\<rparr>"

definition nativeFrame :: StackFrame where
  "nativeFrame =
     \<lparr>getSavedCodeBlock = None, getSavedIP = 0, getCalleeCodeBlock = None,
      getCalleeClosureOrCBRef = CallableObject NotFound\<rparr>"

definition emptyObject :: JSObject where
  "emptyObject = \<lparr>props = Map.empty, extensible = True\<rparr>"

definition freshError :: JSError where
  "freshError =
     \<lparr>props = Map.empty, extensible = True, stacktrace_field = None,
      funcNames_field = None, domains_field = None\<rparr>"

definition exampleRuntime :: "StackFrame list \<Rightarrow> bool list \<Rightarrow> Runtime" where
  "exampleRuntime frames outcomes =
     \<lparr>getStackFrames = frames, thrownValue = None, allocOutcomes = outcomes,
      heapCells = (\<lambda>_. ObjectCell emptyObject), nextAddr = 0,
      toStringOfError = (\<lambda>_. Some ''Error''), maxStringLength = 1000,
      debuggerEnabled = False\<rparr>"

definition nativeEntry :: StackTraceInfo where
  "nativeEntry = \<lparr>codeBlock = None, bytecodeOffset = 0\<rparr>"


text \<open>
  An error instance as \<open>setupStack\<close> and a capture leave it: \<open>stack\<close> is the shared
  accessor (not enumerable, configurable, or not configurable as on a frozen object)
  and a trace of one native frame is recorded.
\<close>

definition capturedError :: "bool \<Rightarrow> JSError" where
  "capturedError isConfigurable =
     \<lparr>props = [''stack'' \<mapsto> \<lparr>pEnumerable = False, pWritable = False,
                                pConfigurable = isConfigurable,
                                pSlot = StackAccessorSlot\<rparr>],
      extensible = True, stacktrace_field = Some [nativeEntry],
      funcNames_field = Some [UndefinedV], domains_field = None\<rparr>"

definition heapRuntime :: "Cell \<Rightarrow> bool list \<Rightarrow> Runtime" where
  "heapRuntime c outcomes =
     \<lparr>getStackFrames = [], thrownValue = None, allocOutcomes = outcomes,
      heapCells = (\<lambda>a. if a = 0 then c else ObjectCell emptyObject), nextAddr = 1,
      toStringOfError = (\<lambda>_. Some ''Error''), maxStringLength = 1000,
      debuggerEnabled = False\<rparr>"

text \<open>
  A fresh error after a capture over one native frame, and the same error after the
  setter has released the trace and stored the value \<open>custom\<close>.
\<close>

definition firstCapture :: JSError where
  "firstCapture =
     freshError\<lparr>stacktrace_field := Some [nativeEntry],
                funcNames_field := Some [UndefinedV]\<rparr>"

definition releasedCapture :: JSError where
  "releasedCapture =
     firstCapture\<lparr>props := [''stack'' \<mapsto> plainSlot (StringV ''custom'')],
                   stacktrace_field := None\<rparr>"

definition accessorNamedFrame :: StackFrame where
  "accessorNamedFrame =
     \<lparr>getSavedCodeBlock = None, getSavedIP = 0, getCalleeCodeBlock = None,
      getCalleeClosureOrCBRef = CallableObject (Found True (StringV ''g''))\<rparr>"

section \<open>Capture: early returns\<close>

text \<open>
  C4. With \<open>skipTopFrame\<close> false and no explicit code block, if the top frame of the
  walker has a callee code block, \<open>recordStackTrace\<close> returns \<open>RETURNED\<close> and changes
  neither the error nor the runtime: nothing is captured, and an unset \<open>stacktrace_\<close>
  stays unset, so that a later call can still capture.
\<close>

theorem recordStackTrace_guard_no_capture:
  assumes "getStackFrames rt = cf # cfs"
    and "getCalleeCodeBlock cf = Some cb"
  shows "recordStackTrace rt self False None ip = Some (RETURNED, self, rt)"
  using assms by (simp add: recordStackTrace_def topFrameIsJSFunction_def)

theorem recordStackTrace_guard_no_capture_witness:
  "getStackFrames (exampleRuntime [scriptFrame 1] []) = scriptFrame 1 # []
   \<and> getCalleeCodeBlock (scriptFrame 1) = Some (exampleCodeBlock 1)
   \<and> stacktrace_field freshError = None
   \<and> recordStackTrace (exampleRuntime [scriptFrame 1] []) freshError False None 0
       = Some (RETURNED, freshError, exampleRuntime [scriptFrame 1] [])"
proof -
  have frames: "getStackFrames (exampleRuntime [scriptFrame 1] []) = scriptFrame 1 # []"
    by (simp add: exampleRuntime_def)
  have callee: "getCalleeCodeBlock (scriptFrame 1) = Some (exampleCodeBlock 1)"
    by (simp add: scriptFrame_def)
  show ?thesis
    using recordStackTrace_guard_no_capture [OF frames callee, of freshError 0] frames callee
    by (simp add: freshError_def)
qed

section \<open>Capture: the walk\<close>

lemma allocate_keeps:
  "allocate rt = (ok, rt') \<Longrightarrow>
     getStackFrames rt' = getStackFrames rt \<and> thrownValue rt' = thrownValue rt"
  by (auto simp: allocate_def split: list.splits)

lemma addDomain_returned:
  assumes "addDomain rt ds cb = (RETURNED, ds', rt')"
  shows "ds' = (if ds \<noteq> [] \<and> last ds = getDomainUnsafe (getRuntimeModule cb) then ds
                else ds @ [getDomainUnsafe (getRuntimeModule cb)])"
    and "getStackFrames rt' = getStackFrames rt"
  using assms
  by (auto simp: addDomain_def ArrayStorage_push_back_def Let_def last_conv_nth
      split: if_splits prod.splits bool.splits CallResult.splits dest: allocate_keeps)

lemma addDomain_exception:
  assumes "addDomain rt ds cb = (EXCEPTION, ds', rt')"
  shows "thrownValue rt' = Some RangeErrorT" and "ds' = ds"
  using assms
  by (auto simp: addDomain_def ArrayStorage_push_back_def Let_def
      split: if_splits prod.splits bool.splits CallResult.splits)

lemma walkFrames_returned:
  "walkFrames rt frames stack ds = (RETURNED, stack', ds', rt') \<Longrightarrow>
     stack' = stack @ map savedEntry frames \<and> getStackFrames rt' = getStackFrames rt"
proof (induction frames arbitrary: rt stack ds)
  case Nil
  then show ?case by simp
next
  case (Cons cf cfs)
  show ?case
  proof (cases "getSavedCodeBlock cf")
    case None
    with Cons.prems have "walkFrames rt cfs (stack @ [savedEntry cf]) ds = (RETURNED, stack', ds', rt')"
      by simp
    from Cons.IH [OF this] show ?thesis by simp
  next
    case (Some cb)
    obtain st ds1 rt1 where ad: "addDomain rt ds cb = (st, ds1, rt1)"
      by (cases "addDomain rt ds cb") auto
    with Cons.prems Some have st: "st = RETURNED"
      and rec: "walkFrames rt1 cfs (stack @ [savedEntry cf]) ds1 = (RETURNED, stack', ds', rt')"
      by (cases st; simp)+
    from Cons.IH [OF rec] addDomain_returned(2) [OF ad [unfolded st]]
    show ?thesis by simp
  qed
qed

lemma walkFrames_exception:
  "walkFrames rt frames stack ds = (EXCEPTION, stack', ds', rt') \<Longrightarrow>
     thrownValue rt' = Some RangeErrorT"
proof (induction frames arbitrary: rt stack ds)
  case Nil
  then show ?case by simp
next
  case (Cons cf cfs)
  show ?case
  proof (cases "getSavedCodeBlock cf")
    case None
    with Cons.prems have "walkFrames rt cfs (stack @ [savedEntry cf]) ds = (EXCEPTION, stack', ds', rt')"
      by simp
    from Cons.IH [OF this] show ?thesis .
  next
    case (Some cb)
    obtain st ds1 rt1 where ad: "addDomain rt ds cb = (st, ds1, rt1)"
      by (cases "addDomain rt ds cb") auto
    show ?thesis
    proof (cases st)
      case EXCEPTION
      with Cons.prems Some ad have "rt' = rt1" by simp
      with addDomain_exception(1) [OF ad [unfolded EXCEPTION]] show ?thesis by simp
    next
      case RETURNED
      with Cons.prems Some ad
      have "walkFrames rt1 cfs (stack @ [savedEntry cf]) ds1 = (EXCEPTION, stack', ds', rt')"
        by simp
      from Cons.IH [OF this] show ?thesis .
    qed
  qed
qed

section \<open>Capture: the domain list\<close>

lemma allocate_all_ok:
  "False \<notin> set (allocOutcomes rt) \<Longrightarrow>
     \<exists>rt'. allocate rt = (True, rt') \<and> (False \<notin> set (allocOutcomes rt'))"
  by (cases "allocOutcomes rt") (auto simp: allocate_def)

lemma addDomain_all_ok:
  assumes "False \<notin> set (allocOutcomes rt)"
  shows "\<exists>rt'. addDomain rt ds cb =
           (RETURNED,
            (if ds \<noteq> [] \<and> last ds = getDomainUnsafe (getRuntimeModule cb) then ds
             else ds @ [getDomainUnsafe (getRuntimeModule cb)]), rt')
         \<and> (False \<notin> set (allocOutcomes rt'))"
proof -
  from allocate_all_ok [OF assms] obtain rt1
    where "allocate rt = (True, rt1)" and "False \<notin> set (allocOutcomes rt1)" by blast
  with assms show ?thesis
    by (auto simp: addDomain_def ArrayStorage_push_back_def Let_def last_conv_nth)
qed

lemma savedDomains_Cons:
  "savedDomains (cf # cfs) =
     (case getSavedCodeBlock cf of
        None \<Rightarrow> savedDomains cfs
      | Some cb \<Rightarrow> getDomainUnsafe (getRuntimeModule cb) # savedDomains cfs)"
  by (simp add: savedDomains_def split: option.splits)

lemma walkFrames_all_ok:
  "False \<notin> set (allocOutcomes rt) \<Longrightarrow>
     \<exists>stack' rt'. walkFrames rt frames stack ds =
        (RETURNED, stack',
         (if ds = [] then remdups_adj (savedDomains frames)
          else ds @ tl (remdups_adj (last ds # savedDomains frames))), rt')"
proof (induction frames arbitrary: rt stack ds)
  case Nil
  then show ?case by (simp add: savedDomains_def)
next
  case (Cons cf cfs)
  show ?case
  proof (cases "getSavedCodeBlock cf")
    case None
    with Cons.IH [OF Cons.prems, of "stack @ [savedEntry cf]" ds] show ?thesis
      by (auto simp: savedDomains_Cons)
  next
    case (Some cb)
    let ?d = "getDomainUnsafe (getRuntimeModule cb)"
    let ?ds1 = "if ds \<noteq> [] \<and> last ds = ?d then ds else ds @ [?d]"
    from addDomain_all_ok [OF Cons.prems, of ds cb] obtain rt1
      where ad: "addDomain rt ds cb = (RETURNED, ?ds1, rt1)"
        and ok1: "False \<notin> set (allocOutcomes rt1)" by blast
    from Cons.IH [OF ok1, of "stack @ [savedEntry cf]" ?ds1] obtain stack' rt'
      where rec: "walkFrames rt1 cfs (stack @ [savedEntry cf]) ?ds1 =
        (RETURNED, stack',
         (if ?ds1 = [] then remdups_adj (savedDomains cfs)
          else ?ds1 @ tl (remdups_adj (last ?ds1 # savedDomains cfs))), rt')" by blast
    have eq: "(if ?ds1 = [] then remdups_adj (savedDomains cfs)
          else ?ds1 @ tl (remdups_adj (last ?ds1 # savedDomains cfs)))
        = (if ds = [] then remdups_adj (savedDomains (cf # cfs))
          else ds @ tl (remdups_adj (last ds # savedDomains (cf # cfs))))"
      using Some by (auto simp: savedDomains_Cons)
    show ?thesis
      using ad rec Some unfolding eq [symmetric] by simp
  qed
qed

lemma distinct_adj_alternate: "a \<noteq> b \<Longrightarrow> distinct_adj (alternate a b n)"
proof (induction n arbitrary: a b)
  case 0
  then show ?case by simp
next
  case (Suc n)
  then show ?case by (cases n) (auto simp: distinct_adj_Cons)
qed

lemma length_alternate [simp]: "length (alternate a b n) = n"
  by (induction n arbitrary: a b) auto

text \<open>
  C7. When no allocation fails, the walk started with an empty domain list returns the
  owning domains of the walked frames' saved code blocks with only adjacent repetitions
  removed (\<open>remdups_adj\<close>): each domain is compared with the last appended one and with
  no other. Hence for domains alternating \<open>A, B, A, B, ...\<close> (\<open>A \<noteq> B\<close>, \<open>n\<close> of them) the
  list has length \<open>n\<close>, and for \<open>A, A, A, B, B\<close> it has length 2.
\<close>

theorem walkFrames_dedups_adjacent_only:
  assumes "False \<notin> set (allocOutcomes rt)"
  shows "\<exists>stack' domains' rt'.
           walkFrames rt frames stack [] = (RETURNED, stack', domains', rt')
           \<and> domains' = remdups_adj (savedDomains frames)
           \<and> (A \<noteq> B \<and> savedDomains frames = alternate A B n \<longrightarrow> length domains' = n)
           \<and> (A \<noteq> B \<and> savedDomains frames = [A, A, A, B, B] \<longrightarrow> length domains' = 2)"
proof -
  from walkFrames_all_ok [OF assms, of frames stack "[]"] obtain stack' rt'
    where w: "walkFrames rt frames stack [] =
                (RETURNED, stack', remdups_adj (savedDomains frames), rt')"
    by auto
  have alt: "A \<noteq> B \<Longrightarrow> remdups_adj (alternate A B n) = alternate A B n"
    using distinct_adj_alternate [of A B n] by (simp add: distinct_adj_altdef)
  show ?thesis
    using w alt by auto
qed

theorem walkFrames_dedups_adjacent_only_witness:
  "allocOutcomes (exampleRuntime [] [True, True]) = [True, True]
   \<and> (1::nat) \<noteq> 2
   \<and> savedDomains [scriptFrame 1, scriptFrame 2, scriptFrame 1, scriptFrame 2] = alternate 1 2 4
   \<and> savedDomains [scriptFrame 1, scriptFrame 1, scriptFrame 1, scriptFrame 2, scriptFrame 2]
       = [1, 1, 1, 2, 2]
   \<and> (\<exists>stack' domains' rt'.
        walkFrames (exampleRuntime [] [True, True])
          [scriptFrame 1, scriptFrame 2, scriptFrame 1, scriptFrame 2] [] []
          = (RETURNED, stack', domains', rt')
        \<and> domains' = [1, 2, 1, 2] \<and> length domains' = 4)
   \<and> (\<exists>stack' domains' rt'.
        walkFrames (exampleRuntime [] [True, True])
          [scriptFrame 1, scriptFrame 1, scriptFrame 1, scriptFrame 2, scriptFrame 2] [] []
          = (RETURNED, stack', domains', rt')
        \<and> domains' = [1, 2] \<and> length domains' = 2)"
proof -
  have outcomes: "allocOutcomes (exampleRuntime [] [True, True]) = [True, True]"
    by (simp add: exampleRuntime_def)
  then have ok: "False \<notin> set (allocOutcomes (exampleRuntime [] [True, True]))"
    by simp
  have ne: "(1::nat) \<noteq> 2" by simp
  have d1: "savedDomains [scriptFrame 1, scriptFrame 2, scriptFrame 1, scriptFrame 2]
              = alternate 1 2 4"
    by (simp add: savedDomains_def scriptFrame_def exampleCodeBlock_def exampleModule_def
        numeral_eq_Suc)
  have d2: "savedDomains
              [scriptFrame 1, scriptFrame 1, scriptFrame 1, scriptFrame 2, scriptFrame 2]
              = [1, 1, 1, 2, 2]"
    by (simp add: savedDomains_def scriptFrame_def exampleCodeBlock_def exampleModule_def)
  have a4: "alternate 1 2 4 = [1, 2, 1, 2]"
    by (simp add: numeral_eq_Suc)
  show ?thesis
    using walkFrames_dedups_adjacent_only [OF ok,
        of "[scriptFrame 1, scriptFrame 2, scriptFrame 1, scriptFrame 2]" "[]" 1 2 4]
      walkFrames_dedups_adjacent_only [OF ok,
        of "[scriptFrame 1, scriptFrame 1, scriptFrame 1, scriptFrame 2, scriptFrame 2]"
           "[]" 1 2 4]
      outcomes ne d1 d2 a4
    by auto
qed

section \<open>Capture: the name list\<close>

lemma allocate_outcomes:
  "allocate rt = (ok, rt') \<Longrightarrow>
     (allocOutcomes rt = [] \<and> ok \<and> rt' = rt)
     \<or> (allocOutcomes rt = ok # allocOutcomes rt')"
  by (auto simp: allocate_def split: list.splits)

lemma PropStorage_resize_cases:
  "PropStorage_resize rt names n = (r, rt') \<Longrightarrow>
     (r = Exception \<and> False \<in> set (take 1 (allocOutcomes rt))
        \<and> thrownValue rt' = Some RangeErrorT)
     \<or> (r = Returned (take n names @ replicate (n - length names) UndefinedV)
         \<and> allocOutcomes rt' = tl (allocOutcomes rt)
         \<and> (allocOutcomes rt = [] \<or> hd (allocOutcomes rt)))"
  by (auto simp: PropStorage_resize_def allocate_def split: list.splits bool.splits)

lemma namesLoop_length:
  "namesLoop rt skipTopFrame frames frameIndex namesIndex names = (Some names', rt') \<Longrightarrow>
   namesIndex = length names \<Longrightarrow>
     length names' =
       length names
         + (if frameIndex = 0 \<and> skipTopFrame then length frames - 1 else length frames)"
proof (induction frames arbitrary: rt frameIndex namesIndex names)
  case Nil
  then show ?case by simp
next
  case (Cons cf cfs)
  show ?case
  proof (cases "frameIndex = 0 \<and> skipTopFrame")
    case True
    with Cons.prems
    have "namesLoop rt skipTopFrame cfs (frameIndex + 1) namesIndex names = (Some names', rt')"
      by simp
    from Cons.IH [OF this Cons.prems(2)] True show ?thesis by simp
  next
    case False
    obtain r rt1 where rs: "PropStorage_resize rt names (namesIndex + 1) = (r, rt1)"
      by (cases "PropStorage_resize rt names (namesIndex + 1)") auto
    with Cons.prems False obtain names1 where r: "r = Returned names1"
      and rec: "namesLoop rt1 skipTopFrame cfs (frameIndex + 1) (namesIndex + 1)
                  (names1[namesIndex := frameFunctionName cf]) = (Some names', rt')"
      by (cases r) auto
    from PropStorage_resize_cases [OF rs] r Cons.prems(2)
    have "length names1 = length names + 1" by auto
    with Cons.IH [OF rec] Cons.prems(2) False show ?thesis by auto
  qed
qed

lemma namesLoop_none_iff:
  "fst (namesLoop rt skipTopFrame frames frameIndex namesIndex names) = None \<longleftrightarrow>
     False \<in> set (take (if frameIndex = 0 \<and> skipTopFrame then length frames - 1
                         else length frames) (allocOutcomes rt))"
proof (induction frames arbitrary: rt frameIndex namesIndex names)
  case Nil
  then show ?case by simp
next
  case (Cons cf cfs)
  show ?case
  proof (cases "frameIndex = 0 \<and> skipTopFrame")
    case True
    with Cons.IH [of rt "frameIndex + 1" namesIndex names] show ?thesis by simp
  next
    case False
    obtain r rt1 where rs: "PropStorage_resize rt names (namesIndex + 1) = (r, rt1)"
      by (cases "PropStorage_resize rt names (namesIndex + 1)") auto
    show ?thesis
    proof (cases r)
      case Exception
      with PropStorage_resize_cases [OF rs] have "False \<in> set (take 1 (allocOutcomes rt))"
        by auto
      then have "False \<in> set (take (length (cf # cfs)) (allocOutcomes rt))"
        by (cases "allocOutcomes rt") auto
      with rs Exception False show ?thesis by auto
    next
      case (Returned names1)
      with PropStorage_resize_cases [OF rs]
      have tl: "allocOutcomes rt1 = tl (allocOutcomes rt)"
        and hd: "allocOutcomes rt = [] \<or> hd (allocOutcomes rt)" by auto
      have bridge: "False \<in> set (take (length cfs) (allocOutcomes rt1))
              \<longleftrightarrow> False \<in> set (take (length (cf # cfs)) (allocOutcomes rt))"
        using tl hd by (cases "allocOutcomes rt") auto
      have unfold: "namesLoop rt skipTopFrame (cf # cfs) frameIndex namesIndex names
          = namesLoop rt1 skipTopFrame cfs (frameIndex + 1) (namesIndex + 1)
              (names1[namesIndex := frameFunctionName cf])"
        using rs Returned False by auto
      have "fst (namesLoop rt1 skipTopFrame cfs (frameIndex + 1) (namesIndex + 1)
              (names1[namesIndex := frameFunctionName cf])) = None
            \<longleftrightarrow> False \<in> set (take (length cfs) (allocOutcomes rt1))"
        using Cons.IH [of rt1 "frameIndex + 1" "namesIndex + 1"
          "names1[namesIndex := frameFunctionName cf]"] by simp
      with unfold bridge False show ?thesis by auto
    qed
  qed
qed

lemma namesLoop_none_cleared:
  "namesLoop rt skipTopFrame frames frameIndex namesIndex names = (None, rt') \<Longrightarrow>
     thrownValue rt' = None"
proof (induction frames arbitrary: rt frameIndex namesIndex names)
  case Nil
  then show ?case by simp
next
  case (Cons cf cfs)
  show ?case
  proof (cases "frameIndex = 0 \<and> skipTopFrame")
    case True
    with Cons.prems Cons.IH [of rt "frameIndex + 1" namesIndex names] show ?thesis by simp
  next
    case False
    obtain r rt1 where rs: "PropStorage_resize rt names (namesIndex + 1) = (r, rt1)"
      by (cases "PropStorage_resize rt names (namesIndex + 1)") auto
    show ?thesis
    proof (cases r)
      case Exception
      with Cons.prems rs False show ?thesis by (auto simp: clearThrownValue_def)
    next
      case (Returned names1)
      with Cons.prems rs False
        Cons.IH [of rt1 "frameIndex + 1" "namesIndex + 1"
          "names1[namesIndex := frameFunctionName cf]"]
      show ?thesis by simp
    qed
  qed
qed

lemma ArrayStorage_create_cases:
  "ArrayStorage_create rt n = (r, rt') \<Longrightarrow>
     getStackFrames rt' = getStackFrames rt \<and>
     ((r = Exception \<and> False \<in> set (take 1 (allocOutcomes rt))
        \<and> thrownValue rt' = Some RangeErrorT)
      \<or> (r = Returned []
         \<and> allocOutcomes rt' = tl (allocOutcomes rt)
         \<and> (allocOutcomes rt = [] \<or> hd (allocOutcomes rt))))"
  by (auto simp: ArrayStorage_create_def allocate_def split: list.splits bool.splits)

lemma getCallStackFunctionNames_length:
  assumes "getCallStackFunctionNames rt skipTopFrame sizeHint = (Some names, rt')"
  shows "length names = namedFrames rt skipTopFrame"
proof -
  obtain r rt1
    where cr: "(ArrayStorage_create rt sizeHint :: HermesValue list CallResult \<times> Runtime)
                 = (r, rt1)"
    by (cases "ArrayStorage_create rt sizeHint :: HermesValue list CallResult \<times> Runtime") auto
  with assms have r: "r = Returned []"
    and nl: "namesLoop rt1 skipTopFrame (getStackFrames rt1) 0 0 [] = (Some names, rt')"
    using ArrayStorage_create_cases [OF cr]
    by (auto simp: getCallStackFunctionNames_def)
  from namesLoop_length [OF nl] ArrayStorage_create_cases [OF cr]
  show ?thesis by (simp add: namedFrames_def)
qed

lemma getCallStackFunctionNames_none_iff:
  "fst (getCallStackFunctionNames rt skipTopFrame sizeHint) = None \<longleftrightarrow>
     False \<in> set (take (Suc (namedFrames rt skipTopFrame)) (allocOutcomes rt))"
proof -
  obtain r rt1
    where cr: "(ArrayStorage_create rt sizeHint :: HermesValue list CallResult \<times> Runtime)
                 = (r, rt1)"
    by (cases "ArrayStorage_create rt sizeHint :: HermesValue list CallResult \<times> Runtime") auto
  note cc = ArrayStorage_create_cases [OF cr]
  show ?thesis
  proof (cases r)
    case Exception
    with cc have "False \<in> set (take 1 (allocOutcomes rt))" by auto
    then have "False \<in> set (take (Suc (namedFrames rt skipTopFrame)) (allocOutcomes rt))"
      by (cases "allocOutcomes rt") auto
    with cr Exception show ?thesis by (simp add: getCallStackFunctionNames_def)
  next
    case (Returned names0)
    with cc have n0: "names0 = []" and tl: "allocOutcomes rt1 = tl (allocOutcomes rt)"
      and hd: "allocOutcomes rt = [] \<or> hd (allocOutcomes rt)"
      and fr: "getStackFrames rt1 = getStackFrames rt" by auto
    have bridge: "False \<in> set (take (namedFrames rt skipTopFrame) (allocOutcomes rt1))
            \<longleftrightarrow> False \<in> set (take (Suc (namedFrames rt skipTopFrame)) (allocOutcomes rt))"
      using tl hd by (cases "allocOutcomes rt") auto
    have unfold: "getCallStackFunctionNames rt skipTopFrame sizeHint
                    = namesLoop rt1 skipTopFrame (getStackFrames rt) 0 0 []"
      using cr Returned n0 fr by (simp add: getCallStackFunctionNames_def)
    have "fst (namesLoop rt1 skipTopFrame (getStackFrames rt) 0 0 []) = None
            \<longleftrightarrow> False \<in> set (take (namedFrames rt skipTopFrame) (allocOutcomes rt1))"
      using namesLoop_none_iff [of rt1 skipTopFrame "getStackFrames rt" 0 0 "[]"]
      by (simp add: namedFrames_def)
    with unfold bridge show ?thesis by simp
  qed
qed

lemma getCallStackFunctionNames_none_cleared:
  assumes "getCallStackFunctionNames rt skipTopFrame sizeHint = (None, rt')"
  shows "thrownValue rt' = None"
proof -
  obtain r rt1
    where cr: "(ArrayStorage_create rt sizeHint :: HermesValue list CallResult \<times> Runtime)
                 = (r, rt1)"
    by (cases "ArrayStorage_create rt sizeHint :: HermesValue list CallResult \<times> Runtime") auto
  show ?thesis
  proof (cases r)
    case Exception
    with assms cr show ?thesis
      by (auto simp: getCallStackFunctionNames_def clearThrownValue_def)
  next
    case (Returned names0)
    with assms cr
    have "namesLoop rt1 skipTopFrame (getStackFrames rt1) 0 0 names0 = (None, rt')"
      by (simp add: getCallStackFunctionNames_def)
    then show ?thesis by (rule namesLoop_none_cleared)
  qed
qed

section \<open>Capture: the trace sequence\<close>

lemma addDomain_returned_set:
  assumes "addDomain rt ds cb = (RETURNED, ds', rt')"
  shows "set ds \<subseteq> set ds'" and "getDomainUnsafe (getRuntimeModule cb) \<in> set ds'"
proof -
  let ?d = "getDomainUnsafe (getRuntimeModule cb)"
  note eq = addDomain_returned(1) [OF assms]
  show "set ds \<subseteq> set ds'" using eq by (auto split: if_splits)
  show "?d \<in> set ds'"
  proof (cases "ds \<noteq> [] \<and> last ds = ?d")
    case True
    then have "?d \<in> set ds" using last_in_set [of ds] by simp
    with eq True show ?thesis by simp
  next
    case False
    with eq show ?thesis by auto
  qed
qed

lemma pushTopEntry_returned:
  assumes "pushTopEntry rt skipTopFrame cbOpt ip stack ds = (RETURNED, stack', ds', rt')"
  shows "stack' = stack @ topEntries skipTopFrame cbOpt ip"
    and "getStackFrames rt' = getStackFrames rt"
    and "set ds \<subseteq> set ds'"
    and "\<forall>e\<in>set (topEntries skipTopFrame cbOpt ip). \<forall>cb. codeBlock e = Some cb
            \<longrightarrow> getDomainUnsafe (getRuntimeModule cb) \<in> set ds'"
proof -
  show "stack' = stack @ topEntries skipTopFrame cbOpt ip"
    using assms by (auto simp: pushTopEntry_def topEntries_def split: if_splits option.splits prod.splits)
  show "getStackFrames rt' = getStackFrames rt"
    using assms addDomain_returned(2)
    by (auto simp: pushTopEntry_def split: if_splits option.splits prod.splits)
  show "set ds \<subseteq> set ds'"
    using assms addDomain_returned_set(1)
    by (fastforce simp: pushTopEntry_def split: if_splits option.splits prod.splits)
  show "\<forall>e\<in>set (topEntries skipTopFrame cbOpt ip). \<forall>cb. codeBlock e = Some cb
            \<longrightarrow> getDomainUnsafe (getRuntimeModule cb) \<in> set ds'"
    using assms addDomain_returned_set(2)
    by (fastforce simp: pushTopEntry_def topEntries_def split: if_splits option.splits prod.splits)
qed

lemma pushTopEntry_exception:
  assumes "pushTopEntry rt skipTopFrame cbOpt ip stack ds = (EXCEPTION, stack', ds', rt')"
  shows "thrownValue rt' = Some RangeErrorT"
  using assms addDomain_exception(1)
  by (auto simp: pushTopEntry_def split: if_splits option.splits prod.splits)

lemma walkFrames_domains_cover:
  "walkFrames rt frames stack ds = (RETURNED, stack', ds', rt') \<Longrightarrow>
     set ds \<subseteq> set ds' \<and>
     (\<forall>cf\<in>set frames. \<forall>cb. getSavedCodeBlock cf = Some cb
         \<longrightarrow> getDomainUnsafe (getRuntimeModule cb) \<in> set ds')"
proof (induction frames arbitrary: rt stack ds)
  case Nil
  then show ?case by simp
next
  case (Cons cf cfs)
  show ?case
  proof (cases "getSavedCodeBlock cf")
    case None
    with Cons.prems have "walkFrames rt cfs (stack @ [savedEntry cf]) ds = (RETURNED, stack', ds', rt')"
      by simp
    from Cons.IH [OF this] None show ?thesis by simp
  next
    case (Some cb)
    obtain st ds1 rt1 where ad: "addDomain rt ds cb = (st, ds1, rt1)"
      by (cases "addDomain rt ds cb") auto
    with Cons.prems Some have st: "st = RETURNED"
      and rec: "walkFrames rt1 cfs (stack @ [savedEntry cf]) ds1 = (RETURNED, stack', ds', rt')"
      by (cases st; simp)+
    from addDomain_returned_set [OF ad [unfolded st]]
    have "set ds \<subseteq> set ds1" and "getDomainUnsafe (getRuntimeModule cb) \<in> set ds1"
      by simp_all
    with Cons.IH [OF rec] Some show ?thesis by auto
  qed
qed

lemma buildTrace_returned:
  assumes "buildTrace rt skipTopFrame cbOpt ip = (RETURNED, stack, ds, rt')"
  shows "stack = topEntries skipTopFrame cbOpt ip @ map savedEntry (getStackFrames rt)"
    and "getStackFrames rt' = getStackFrames rt"
    and "\<forall>e\<in>set stack. \<forall>cb. codeBlock e = Some cb
            \<longrightarrow> getDomainUnsafe (getRuntimeModule cb) \<in> set ds"
proof -
  obtain r rt1
    where cr: "(ArrayStorage_create rt 1 :: Domain list CallResult \<times> Runtime) = (r, rt1)"
    by (cases "ArrayStorage_create rt 1 :: Domain list CallResult \<times> Runtime") auto
  obtain st2 stack2 ds2 rt2
    where pt: "pushTopEntry rt1 skipTopFrame cbOpt ip [] [] = (st2, stack2, ds2, rt2)"
    by (cases "pushTopEntry rt1 skipTopFrame cbOpt ip [] []") auto
  from assms cr ArrayStorage_create_cases [OF cr] have r: "r = Returned []"
    by (cases r) (auto simp: buildTrace_def)
  from assms cr r pt have st2: "st2 = RETURNED"
    and wf: "walkFrames rt2 (getStackFrames rt2) stack2 ds2 = (RETURNED, stack, ds, rt')"
    by (cases st2; simp add: buildTrace_def)+
  note p = pushTopEntry_returned [OF pt [unfolded st2]]
  note w = walkFrames_returned [OF wf] walkFrames_domains_cover [OF wf]
  from ArrayStorage_create_cases [OF cr] have f1: "getStackFrames rt1 = getStackFrames rt"
    by simp
  show "stack = topEntries skipTopFrame cbOpt ip @ map savedEntry (getStackFrames rt)"
    using p w f1 by simp
  show "getStackFrames rt' = getStackFrames rt"
    using p w f1 by simp
  have "\<forall>cf\<in>set (getStackFrames rt2). \<forall>cb. codeBlock (savedEntry cf) = Some cb
          \<longrightarrow> getDomainUnsafe (getRuntimeModule cb) \<in> set ds"
    using w(2) by (simp add: savedEntry_def)
  moreover have "\<forall>e\<in>set (topEntries skipTopFrame cbOpt ip). \<forall>cb. codeBlock e = Some cb
          \<longrightarrow> getDomainUnsafe (getRuntimeModule cb) \<in> set ds"
    using p(4) w(2) by blast
  ultimately show "\<forall>e\<in>set stack. \<forall>cb. codeBlock e = Some cb
            \<longrightarrow> getDomainUnsafe (getRuntimeModule cb) \<in> set ds"
    using w(1) p(1) by auto
qed

lemma buildTrace_exception:
  assumes "buildTrace rt skipTopFrame cbOpt ip = (EXCEPTION, stack, ds, rt')"
  shows "thrownValue rt' = Some RangeErrorT"
proof -
  obtain r rt1
    where cr: "(ArrayStorage_create rt 1 :: Domain list CallResult \<times> Runtime) = (r, rt1)"
    by (cases "ArrayStorage_create rt 1 :: Domain list CallResult \<times> Runtime") auto
  show ?thesis
  proof (cases r)
    case Exception
    with assms cr ArrayStorage_create_cases [OF cr] show ?thesis
      by (auto simp: buildTrace_def)
  next
    case (Returned ds0)
    obtain st2 stack2 ds2 rt2
      where pt: "pushTopEntry rt1 skipTopFrame cbOpt ip [] ds0 = (st2, stack2, ds2, rt2)"
      by (cases "pushTopEntry rt1 skipTopFrame cbOpt ip [] ds0") auto
    show ?thesis
    proof (cases st2)
      case EXCEPTION
      with assms cr Returned pt have "rt' = rt2" by (simp add: buildTrace_def)
      with pushTopEntry_exception [OF pt [unfolded EXCEPTION]] show ?thesis by simp
    next
      case RETURNED
      with assms cr Returned pt
      have "walkFrames rt2 (getStackFrames rt2) stack2 ds2 = (EXCEPTION, stack, ds, rt')"
        by (simp add: buildTrace_def)
      then show ?thesis by (rule walkFrames_exception)
    qed
  qed
qed

section \<open>Capture: which allocations the trace sequence makes\<close>

lemma take_Suc_outcomes:
  assumes "outcomes' = tl outcomes" and "outcomes = [] \<or> hd outcomes"
  shows "False \<in> set (take (Suc k) outcomes) \<longleftrightarrow> False \<in> set (take k outcomes')"
  using assms by (cases outcomes) auto

lemma addDomain_cases:
  assumes "addDomain rt ds cb = (st, ds1, rt1)"
  shows "(ds \<noteq> [] \<and> last ds = getDomainUnsafe (getRuntimeModule cb)
            \<and> st = RETURNED \<and> ds1 = ds \<and> rt1 = rt)
         \<or> (\<not> (ds \<noteq> [] \<and> last ds = getDomainUnsafe (getRuntimeModule cb))
            \<and> ((st = EXCEPTION \<and> False \<in> set (take 1 (allocOutcomes rt)))
               \<or> (st = RETURNED \<and> ds1 = ds @ [getDomainUnsafe (getRuntimeModule cb)]
                  \<and> allocOutcomes rt1 = tl (allocOutcomes rt)
                  \<and> (allocOutcomes rt = [] \<or> hd (allocOutcomes rt)))))"
  using assms
  by (auto simp: addDomain_def ArrayStorage_push_back_def allocate_def Let_def last_conv_nth
      split: if_splits list.splits bool.splits)

lemma pendingAppends_same:
  "ds \<noteq> [] \<Longrightarrow> last ds = d \<Longrightarrow> pendingAppends ds (d # new) = pendingAppends ds new"
  by (simp add: pendingAppends_def)

lemma pendingAppends_new:
  "\<not> (ds \<noteq> [] \<and> last ds = d) \<Longrightarrow>
     pendingAppends ds (d # new) = Suc (pendingAppends (ds @ [d]) new)"
proof -
  assume a: "\<not> (ds \<noteq> [] \<and> last ds = d)"
  have "length (remdups_adj (d # new)) = Suc (length (tl (remdups_adj (d # new))))"
    by (metis length_Cons remdups_adj_Cons_alt)
  with a show ?thesis
    by (auto simp: pendingAppends_def)
qed

lemma walkFrames_exception_iff:
  "fst (walkFrames rt frames stack ds) = EXCEPTION \<longleftrightarrow>
     False \<in> set (take (pendingAppends ds (savedDomains frames)) (allocOutcomes rt))"
proof (induction frames arbitrary: rt stack ds)
  case Nil
  then show ?case by (simp add: savedDomains_def pendingAppends_def)
next
  case (Cons cf cfs)
  show ?case
  proof (cases "getSavedCodeBlock cf")
    case None
    with Cons.IH [of rt "stack @ [savedEntry cf]" ds] show ?thesis
      by (simp add: savedDomains_Cons)
  next
    case (Some cb)
    let ?d = "getDomainUnsafe (getRuntimeModule cb)"
    have sd: "savedDomains (cf # cfs) = ?d # savedDomains cfs"
      using Some by (simp add: savedDomains_Cons)
    obtain st ds1 rt1 where ad: "addDomain rt ds cb = (st, ds1, rt1)"
      by (cases "addDomain rt ds cb") auto
    from addDomain_cases [OF ad]
    consider (same) "ds \<noteq> []" "last ds = ?d" "st = RETURNED" "ds1 = ds" "rt1 = rt"
      | (fail) "\<not> (ds \<noteq> [] \<and> last ds = ?d)" "st = EXCEPTION"
          "False \<in> set (take 1 (allocOutcomes rt))"
      | (appended) "\<not> (ds \<noteq> [] \<and> last ds = ?d)" "st = RETURNED" "ds1 = ds @ [?d]"
          "allocOutcomes rt1 = tl (allocOutcomes rt)"
          "allocOutcomes rt = [] \<or> hd (allocOutcomes rt)"
      by blast
    then show ?thesis
    proof cases
      case same
      have "walkFrames rt (cf # cfs) stack ds = walkFrames rt cfs (stack @ [savedEntry cf]) ds"
        using Some ad same by simp
      with Cons.IH [of rt "stack @ [savedEntry cf]" ds] sd pendingAppends_same [OF same(1,2)]
      show ?thesis by simp
    next
      case fail
      have "fst (walkFrames rt (cf # cfs) stack ds) = EXCEPTION"
        using Some ad fail by simp
      moreover have "False \<in> set (take (pendingAppends ds (savedDomains (cf # cfs)))
                                  (allocOutcomes rt))"
        using fail(3) sd pendingAppends_new [OF fail(1)]
        by (cases "allocOutcomes rt") auto
      ultimately show ?thesis by simp
    next
      case appended
      have "walkFrames rt (cf # cfs) stack ds
              = walkFrames rt1 cfs (stack @ [savedEntry cf]) (ds @ [?d])"
        using Some ad appended by simp
      with Cons.IH [of rt1 "stack @ [savedEntry cf]" "ds @ [?d]"] sd
        pendingAppends_new [OF appended(1)]
        take_Suc_outcomes [OF appended(4,5)]
      show ?thesis by simp
    qed
  qed
qed

lemma pushTopEntry_cases:
  assumes "pushTopEntry rt skipTopFrame cbOpt ip [] [] = (st, stack1, ds1, rt1)"
  shows "(topDomains skipTopFrame cbOpt = [] \<and> st = RETURNED \<and> ds1 = [] \<and> rt1 = rt)
         \<or> (\<exists>d. topDomains skipTopFrame cbOpt = [d]
              \<and> ((st = EXCEPTION \<and> False \<in> set (take 1 (allocOutcomes rt)))
                 \<or> (st = RETURNED \<and> ds1 = [d]
                    \<and> allocOutcomes rt1 = tl (allocOutcomes rt)
                    \<and> (allocOutcomes rt = [] \<or> hd (allocOutcomes rt)))))"
  using assms
  by (auto simp: pushTopEntry_def topDomains_def addDomain_def ArrayStorage_push_back_def
      allocate_def Let_def split: if_splits option.splits list.splits bool.splits)

lemma buildTrace_exception_iff:
  "fst (buildTrace rt skipTopFrame cbOpt ip) = EXCEPTION \<longleftrightarrow>
     False \<in> set (take (traceAllocations rt skipTopFrame cbOpt) (allocOutcomes rt))"
proof -
  let ?k = "length (remdups_adj
              (topDomains skipTopFrame cbOpt @ savedDomains (getStackFrames rt)))"
  obtain r rt1
    where cr: "(ArrayStorage_create rt 1 :: Domain list CallResult \<times> Runtime) = (r, rt1)"
    by (cases "ArrayStorage_create rt 1 :: Domain list CallResult \<times> Runtime") auto
  note cc = ArrayStorage_create_cases [OF cr]
  show ?thesis
  proof (cases r)
    case Exception
    with cc have "False \<in> set (take 1 (allocOutcomes rt))" by auto
    then have "False \<in> set (take (Suc ?k) (allocOutcomes rt))"
      by (cases "allocOutcomes rt") auto
    with cr Exception show ?thesis by (simp add: buildTrace_def traceAllocations_def)
  next
    case (Returned ds0)
    with cc have ds0: "ds0 = []" and tl1: "allocOutcomes rt1 = tl (allocOutcomes rt)"
      and hd1: "allocOutcomes rt = [] \<or> hd (allocOutcomes rt)"
      and fr1: "getStackFrames rt1 = getStackFrames rt" by auto
    note step1 = take_Suc_outcomes [OF tl1 hd1]
    obtain st stack2 ds2 rt2
      where pt: "pushTopEntry rt1 skipTopFrame cbOpt ip [] [] = (st, stack2, ds2, rt2)"
      by (cases "pushTopEntry rt1 skipTopFrame cbOpt ip [] []") auto
    from pushTopEntry_cases [OF pt]
    consider (none) "topDomains skipTopFrame cbOpt = []" "st = RETURNED" "ds2 = []" "rt2 = rt1"
      | (fail) d where "topDomains skipTopFrame cbOpt = [d]" "st = EXCEPTION"
          "False \<in> set (take 1 (allocOutcomes rt1))"
      | (pushed) d where "topDomains skipTopFrame cbOpt = [d]" "st = RETURNED" "ds2 = [d]"
          "allocOutcomes rt2 = tl (allocOutcomes rt1)"
          "allocOutcomes rt1 = [] \<or> hd (allocOutcomes rt1)"
      by blast
    then show ?thesis
    proof cases
      case none
      have "buildTrace rt skipTopFrame cbOpt ip
              = walkFrames rt1 (getStackFrames rt) stack2 []"
        using cr Returned ds0 pt none fr1 by (simp add: buildTrace_def)
      with walkFrames_exception_iff [of rt1 "getStackFrames rt" stack2 "[]"] none(1) step1
      show ?thesis by (simp add: traceAllocations_def pendingAppends_def)
    next
      case fail
      have "fst (buildTrace rt skipTopFrame cbOpt ip) = EXCEPTION"
        using cr Returned ds0 pt fail by (simp add: buildTrace_def)
      moreover have "0 < ?k" using fail(1) by simp
      then have "False \<in> set (take ?k (allocOutcomes rt1))"
        using fail(3) by (cases "allocOutcomes rt1"; cases ?k) auto
      ultimately show ?thesis using step1 by (simp add: traceAllocations_def)
    next
      case pushed
      have fr2: "getStackFrames rt2 = getStackFrames rt"
        using pushTopEntry_returned(2) [OF pt [unfolded pushed(2)]] fr1 by simp
      have bt: "buildTrace rt skipTopFrame cbOpt ip
              = walkFrames rt2 (getStackFrames rt) stack2 [d]"
        using cr Returned ds0 pt pushed fr2 by (simp add: buildTrace_def)
      have k: "?k = Suc (pendingAppends [d] (savedDomains (getStackFrames rt)))"
        using pushed(1)
        by (simp add: pendingAppends_def)
      show ?thesis
        using bt walkFrames_exception_iff [of rt2 "getStackFrames rt" stack2 "[d]"]
          k step1 take_Suc_outcomes [OF pushed(4,5)]
        by (simp add: traceAllocations_def)
    qed
  qed
qed

lemma walkFrames_returned_outcomes:
  "walkFrames rt frames stack ds = (RETURNED, stack', ds', rt') \<Longrightarrow>
     allocOutcomes rt' = drop (pendingAppends ds (savedDomains frames)) (allocOutcomes rt)"
proof (induction frames arbitrary: rt stack ds)
  case Nil
  then show ?case by (simp add: savedDomains_def pendingAppends_def)
next
  case (Cons cf cfs)
  show ?case
  proof (cases "getSavedCodeBlock cf")
    case None
    with Cons.prems
    have "walkFrames rt cfs (stack @ [savedEntry cf]) ds = (RETURNED, stack', ds', rt')"
      by simp
    from Cons.IH [OF this] None show ?thesis by (simp add: savedDomains_Cons)
  next
    case (Some cb)
    let ?d = "getDomainUnsafe (getRuntimeModule cb)"
    have sd: "savedDomains (cf # cfs) = ?d # savedDomains cfs"
      using Some by (simp add: savedDomains_Cons)
    obtain st ds1 rt1 where ad: "addDomain rt ds cb = (st, ds1, rt1)"
      by (cases "addDomain rt ds cb") auto
    with Cons.prems Some have st: "st = RETURNED"
      and rec: "walkFrames rt1 cfs (stack @ [savedEntry cf]) ds1 = (RETURNED, stack', ds', rt')"
      by (cases st; simp)+
    from addDomain_cases [OF ad] st
    consider (same) "ds \<noteq> []" "last ds = ?d" "ds1 = ds" "rt1 = rt"
      | (appended) "\<not> (ds \<noteq> [] \<and> last ds = ?d)" "ds1 = ds @ [?d]"
          "allocOutcomes rt1 = tl (allocOutcomes rt)"
      by auto
    then show ?thesis
    proof cases
      case same
      with Cons.IH [OF rec] sd pendingAppends_same [OF same(1,2)] show ?thesis by simp
    next
      case appended
      with Cons.IH [OF rec] sd pendingAppends_new [OF appended(1)] show ?thesis
        by (simp add: drop_Suc)
    qed
  qed
qed

lemma buildTrace_returned_outcomes:
  assumes "buildTrace rt skipTopFrame cbOpt ip = (RETURNED, stack, ds, rt')"
  shows "allocOutcomes rt' = drop (traceAllocations rt skipTopFrame cbOpt) (allocOutcomes rt)"
proof -
  obtain r rt1
    where cr: "(ArrayStorage_create rt 1 :: Domain list CallResult \<times> Runtime) = (r, rt1)"
    by (cases "ArrayStorage_create rt 1 :: Domain list CallResult \<times> Runtime") auto
  note cc = ArrayStorage_create_cases [OF cr]
  from assms cr have r: "r = Returned []"
    using cc by (cases r) (auto simp: buildTrace_def)
  with cc have tl1: "allocOutcomes rt1 = tl (allocOutcomes rt)"
    and fr1: "getStackFrames rt1 = getStackFrames rt" by auto
  obtain st stack2 ds2 rt2
    where pt: "pushTopEntry rt1 skipTopFrame cbOpt ip [] [] = (st, stack2, ds2, rt2)"
    by (cases "pushTopEntry rt1 skipTopFrame cbOpt ip [] []") auto
  from assms cr r pt have st: "st = RETURNED"
    and wf: "walkFrames rt2 (getStackFrames rt2) stack2 ds2 = (RETURNED, stack, ds, rt')"
    by (cases st; simp add: buildTrace_def)+
  have fr2: "getStackFrames rt2 = getStackFrames rt"
    using pushTopEntry_returned(2) [OF pt [unfolded st]] fr1 by simp
  note w = walkFrames_returned_outcomes [OF wf, unfolded fr2]
  from pushTopEntry_cases [OF pt] st
  consider (none) "topDomains skipTopFrame cbOpt = []" "ds2 = []" "rt2 = rt1"
    | (pushed) d where "topDomains skipTopFrame cbOpt = [d]" "ds2 = [d]"
        "allocOutcomes rt2 = tl (allocOutcomes rt1)"
    by auto
  then show ?thesis
  proof cases
    case none
    with w tl1 show ?thesis
      by (simp add: traceAllocations_def pendingAppends_def drop_Suc)
  next
    case pushed
    have "length (remdups_adj (d # savedDomains (getStackFrames rt)))
            = Suc (pendingAppends [d] (savedDomains (getStackFrames rt)))"
      by (simp add: pendingAppends_def)
    with pushed w tl1 show ?thesis
      by (simp add: traceAllocations_def drop_Suc)
  qed
qed

section \<open>Capture: outcomes of recordStackTrace\<close>

lemma recordStackTrace_keeps_domains_field:
  "recordStackTrace rt self skipTopFrame cbOpt ip = Some (st, self', rt') \<Longrightarrow>
     domains_field self' = domains_field self"
  by (auto simp: recordStackTrace_def Let_def
      split: if_splits prod.splits ExecutionStatus.splits)

text \<open>
  C1 as the code has it. When an allocation fails while the trace sequence is built
  (the allocation of the domain list, or the append of a domain), \<open>recordStackTrace\<close>
  returns \<open>EXCEPTION\<close>: the error object is unchanged, so no trace is recorded, and the
  raised exception stays in the runtime; it is not cleared.
\<close>

theorem recordStackTrace_allocation_failure_propagates:
  assumes "stacktrace_field self = None"
    and "skipTopFrame \<or> cbOpt \<noteq> None \<or> \<not> topFrameIsJSFunction rt"
    and "False \<in> set (take (traceAllocations rt skipTopFrame cbOpt) (allocOutcomes rt))"
  shows "\<exists>rt'. recordStackTrace rt self skipTopFrame cbOpt ip = Some (EXCEPTION, self, rt')
               \<and> thrownValue rt' = Some RangeErrorT"
proof -
  obtain st stack ds rt' where bt: "buildTrace rt skipTopFrame cbOpt ip = (st, stack, ds, rt')"
    by (cases "buildTrace rt skipTopFrame cbOpt ip") auto
  with buildTrace_exception_iff [of rt skipTopFrame cbOpt ip] assms(3)
  have st: "st = EXCEPTION" by simp
  have "recordStackTrace rt self skipTopFrame cbOpt ip = Some (EXCEPTION, self, rt')"
    using assms(1,2) bt st by (auto simp: recordStackTrace_def)
  with buildTrace_exception [OF bt [unfolded st]] show ?thesis by simp
qed

theorem recordStackTrace_allocation_failure_propagates_witness:
  "stacktrace_field freshError = None
   \<and> allocOutcomes (exampleRuntime [scriptFrame 1] [True, False]) = [True, False]
   \<and> traceAllocations (exampleRuntime [scriptFrame 1] [True, False]) True None = 2
   \<and> (\<exists>rt'. recordStackTrace (exampleRuntime [scriptFrame 1] [True, False]) freshError
                True None 0 = Some (EXCEPTION, freshError, rt')
              \<and> thrownValue rt' = Some RangeErrorT)"
proof -
  have unset: "stacktrace_field freshError = None"
    by (simp add: freshError_def)
  have skip: "True \<or> (None :: CodeBlock option) \<noteq> None
                \<or> \<not> topFrameIsJSFunction (exampleRuntime [scriptFrame 1] [True, False])"
    by simp
  have outcomes: "allocOutcomes (exampleRuntime [scriptFrame 1] [True, False]) = [True, False]"
    by (simp add: exampleRuntime_def)
  have count: "traceAllocations (exampleRuntime [scriptFrame 1] [True, False]) True None = 2"
    by (simp add: traceAllocations_def topDomains_def savedDomains_def exampleRuntime_def
        scriptFrame_def)
  have fails: "False \<in> set (take (traceAllocations (exampleRuntime [scriptFrame 1] [True, False])
                                    True None)
                              (allocOutcomes (exampleRuntime [scriptFrame 1] [True, False])))"
    unfolding count outcomes by simp
  show ?thesis
    using recordStackTrace_allocation_failure_propagates [OF unset skip fails, of 0]
      unset outcomes count
    by simp
qed

text \<open>
  C1 does not hold as stated. With one native frame live and the allocation of the
  domain list failing, \<open>recordStackTrace\<close> on a fresh error returns \<open>EXCEPTION\<close>, not
  success, and the raised exception is still pending in the runtime it leaves.
\<close>

theorem recordStackTrace_allocation_failure_counterexample:
  "recordStackTrace (exampleRuntime [nativeFrame] [False]) freshError False None 0
     = Some (EXCEPTION, freshError,
             (exampleRuntime [nativeFrame] [])\<lparr>thrownValue := Some RangeErrorT\<rparr>)
   \<and> thrownValue ((exampleRuntime [nativeFrame] [])\<lparr>thrownValue := Some RangeErrorT\<rparr>)
       = Some RangeErrorT
   \<and> stacktrace_field freshError = None"
  by (simp add: recordStackTrace_def buildTrace_def ArrayStorage_create_def allocate_def
      topFrameIsJSFunction_def exampleRuntime_def nativeFrame_def freshError_def)

text \<open>
  C2 at a concrete input. A fresh error captured with the explicit code block of domain
  1 on top of one script frame: the call returns \<open>RETURNED\<close> with \<open>stacktrace_\<close> and
  \<open>funcNames_\<close> set, the trace refers to a code block of domain 1, and \<open>domains_\<close> is
  still null.
\<close>

theorem recordStackTrace_domains_not_stored:
  "recordStackTrace (exampleRuntime [scriptFrame 1] []) freshError False
       (Some (exampleCodeBlock 1)) 0
     = Some (RETURNED,
             freshError\<lparr>stacktrace_field :=
                          Some [\<lparr>codeBlock = Some (exampleCodeBlock 1), bytecodeOffset = 0\<rparr>],
                        funcNames_field := Some [StringV ''f'']\<rparr>,
             exampleRuntime [scriptFrame 1] [])
   \<and> domains_field
        (freshError\<lparr>stacktrace_field :=
                      Some [\<lparr>codeBlock = Some (exampleCodeBlock 1), bytecodeOffset = 0\<rparr>],
                    funcNames_field := Some [StringV ''f'']\<rparr>) = None
   \<and> getDomainUnsafe (getRuntimeModule (exampleCodeBlock 1)) = 1"
  by (simp add: recordStackTrace_def buildTrace_def ArrayStorage_create_def allocate_def
      pushTopEntry_def addDomain_def ArrayStorage_push_back_def savedEntry_def getOffsetOf_def
      getCallStackFunctionNames_def PropStorage_resize_def frameFunctionName_def
      exampleRuntime_def scriptFrame_def exampleCodeBlock_def exampleModule_def
      freshError_def Let_def)

lemma length_trace_sequence:
  assumes "\<not> skipTopFrame \<or> frames \<noteq> []"
  shows "length (butlast (topEntries skipTopFrame cbOpt ip @ map savedEntry frames))
           = (if skipTopFrame then length frames - 1 else length frames)"
  by (simp add: topEntries_def)

text \<open>
  C5. After a call of \<open>recordStackTrace\<close> that captured a trace (the error had none
  before and has one after), the trace has one entry per frame that
  \<open>getCallStackFunctionNames\<close> names under the same \<open>skipTopFrame\<close> flag, and
  \<open>funcNames_\<close> is either null or a list of exactly the length of the trace.
\<close>

theorem recordStackTrace_names_aligned:
  assumes "stacktrace_field self = None"
    and "recordStackTrace rt self skipTopFrame cbOpt ip = Some (st, self', rt')"
    and "stacktrace_field self' = Some trace"
  shows "length trace = namedFrames rt skipTopFrame
         \<and> (funcNames_field self' = None
            \<or> (\<exists>names. funcNames_field self' = Some names \<and> length names = length trace))"
proof -
  obtain st1 stack ds rt1
    where bt: "buildTrace rt skipTopFrame cbOpt ip = (st1, stack, ds, rt1)"
    by (cases "buildTrace rt skipTopFrame cbOpt ip") auto
  obtain fn rt2
    where gn: "getCallStackFunctionNames rt1 skipTopFrame (length (butlast stack)) = (fn, rt2)"
    by (cases "getCallStackFunctionNames rt1 skipTopFrame (length (butlast stack))") auto
  have noguard: "\<not> (\<not> skipTopFrame \<and> cbOpt = None \<and> topFrameIsJSFunction rt)"
    using assms by (auto simp: recordStackTrace_def)
  have st1: "st1 = RETURNED"
    using assms bt noguard by (cases st1) (auto simp: recordStackTrace_def)
  have ne: "stack \<noteq> []"
    using assms bt noguard st1 by (auto simp: recordStackTrace_def)
  have self': "self' = self\<lparr>stacktrace_field := Some (butlast stack), funcNames_field := fn\<rparr>"
    using assms(1,2) bt noguard st1 ne gn by (auto simp: recordStackTrace_def Let_def)
  with assms(3) have trace: "trace = butlast stack" by simp
  note b = buildTrace_returned [OF bt [unfolded st1]]
  have frames: "\<not> skipTopFrame \<or> getStackFrames rt \<noteq> []"
    using ne b(1) by (auto simp: topEntries_def)
  have len: "length trace = namedFrames rt skipTopFrame"
    using trace b(1) length_trace_sequence [OF frames, of cbOpt ip]
    by (simp add: namedFrames_def)
  have "funcNames_field self' = fn" using self' by simp
  moreover have "fn = Some names \<Longrightarrow> length names = length trace" for names
    using getCallStackFunctionNames_length [of rt1 skipTopFrame "length (butlast stack)" names rt2]
      gn len b(2)
    by (simp add: namedFrames_def)
  ultimately show ?thesis using len by (cases fn) auto
qed

theorem recordStackTrace_names_aligned_witness:
  "stacktrace_field freshError = None
   \<and> recordStackTrace (exampleRuntime [scriptFrame 1, nativeFrame] []) freshError True None 0
       = Some (RETURNED,
               freshError\<lparr>stacktrace_field :=
                            Some [\<lparr>codeBlock = Some (exampleCodeBlock 1), bytecodeOffset = 0\<rparr>],
                          funcNames_field := Some [UndefinedV]\<rparr>,
               exampleRuntime [scriptFrame 1, nativeFrame] [])
   \<and> namedFrames (exampleRuntime [scriptFrame 1, nativeFrame] []) True = 1
   \<and> length [\<lparr>codeBlock = Some (exampleCodeBlock 1), bytecodeOffset = 0\<rparr>]
       = namedFrames (exampleRuntime [scriptFrame 1, nativeFrame] []) True
   \<and> length [UndefinedV] = length [\<lparr>codeBlock = Some (exampleCodeBlock 1), bytecodeOffset = 0\<rparr>]"
proof -
  let ?self' = "freshError\<lparr>stacktrace_field :=
                            Some [\<lparr>codeBlock = Some (exampleCodeBlock 1), bytecodeOffset = 0\<rparr>],
                          funcNames_field := Some [UndefinedV]\<rparr>"
  have unset: "stacktrace_field freshError = None"
    by (simp add: freshError_def)
  have run: "recordStackTrace (exampleRuntime [scriptFrame 1, nativeFrame] []) freshError
               True None 0
       = Some (RETURNED, ?self', exampleRuntime [scriptFrame 1, nativeFrame] [])"
    by (simp add: recordStackTrace_def buildTrace_def ArrayStorage_create_def allocate_def
      pushTopEntry_def addDomain_def ArrayStorage_push_back_def savedEntry_def getOffsetOf_def
      getCallStackFunctionNames_def PropStorage_resize_def frameFunctionName_def
      exampleRuntime_def scriptFrame_def nativeFrame_def exampleCodeBlock_def exampleModule_def
      freshError_def Let_def)
  have set: "stacktrace_field ?self'
               = Some [\<lparr>codeBlock = Some (exampleCodeBlock 1), bytecodeOffset = 0\<rparr>]"
    by simp
  have named: "namedFrames (exampleRuntime [scriptFrame 1, nativeFrame] []) True = 1"
    by (simp add: namedFrames_def exampleRuntime_def)
  show ?thesis
    using recordStackTrace_names_aligned [OF unset run set] unset run named
    by simp
qed

section \<open>Formatting: the truncation of deep traces\<close>



lemma stackTraceLoop_done:
  "\<not> index < mx \<Longrightarrow> stackTraceLoop self trace cache index mx = Some []"
  by (subst stackTraceLoop.simps) simp









section \<open>The stack accessor: the setter\<close>

lemma defineOwnProperty_cases:
  assumes "defineOwnProperty rt addr ''stack'' plainNonEnumerable (DataSlot v) = (r, rt')"
  shows "(\<not> stackDefinable (heapCells rt addr) \<and> r = Returned False \<and> rt' = rt)
         \<or> (stackDefinable (heapCells rt addr) \<and> \<not> nextAllocationSucceeds rt
              \<and> r = Exception \<and> heapCells rt' = heapCells rt
              \<and> thrownValue rt' = Some RangeErrorT)
         \<or> (stackDefinable (heapCells rt addr) \<and> nextAllocationSucceeds rt
              \<and> r = Returned True
              \<and> heapCells rt' = (heapCells rt)
                   (addr := setCellProps (heapCells rt addr)
                              ((cellProps (heapCells rt addr))(''stack'' \<mapsto> plainSlot v))))"
  using assms
  by (auto simp: defineOwnProperty_def stackDefinable_def nextAllocationSucceeds_def
      allocate_def definedProperty_def plainNonEnumerable_def getDefaultNewPropertyFlags_def
      plainSlot_def Let_def
      split: option.splits list.splits bool.splits if_splits)

lemma cellProps_setCellProps [simp]: "cellProps (setCellProps c ps) = ps"
  by (cases c) (simp_all add: cellProps_def setCellProps_def)

lemma readStack_plain:
  "cellProps (heapCells rt a) ''stack'' = Some (plainSlot v) \<Longrightarrow>
     readStack rt a = Some (Returned v, rt)"
  by (simp add: readStack_def plainSlot_def)

text \<open>The definitions that evaluate the accessor functions on a concrete heap.\<close>

lemmas accessor_eval =
  errorStackSetter_def errorStackGetter_def dyn_vmcast_JSError_def toObject_def
  defineOwnProperty_def allocate_def cellProps_def cellExtensible_def setCellProps_def
  definedProperty_def plainNonEnumerable_def getDefaultNewPropertyFlags_def getArg_def
  readStack_def raiseTypeError_def heapRuntime_def capturedError_def emptyObject_def
  stackDefinable_def nextAllocationSucceeds_def plainSlot_def Let_def

text \<open>
  C9 as the code has it. The setter called on an error instance with the value \<open>v\<close>
  always discards the captured trace. When the \<open>stack\<close> property can be redefined (it
  is configurable, or absent from an extensible object) and the allocation of the
  definition succeeds, the setter returns \<open>undefined\<close>, \<open>stack\<close> is the plain,
  non-enumerable value slot holding exactly \<open>v\<close>, and a read of \<open>stack\<close> returns \<open>v\<close>
  and leaves the runtime as it is, so that every later read returns \<open>v\<close> as well.
  Otherwise the property is left as it was: the setter returns \<open>undefined\<close> when the
  definition is rejected, and propagates the exception when the allocation fails.
\<close>

theorem errorStackSetter_on_error:
  assumes "heapCells rt a = ErrorCell e"
    and "errorStackSetter rt \<lparr>getThisArg = ObjectV a, argList = v # rest\<rparr> = (r, rt')"
  shows "(\<exists>e'. heapCells rt' a = ErrorCell e' \<and> stacktrace_field e' = None)
         \<and> (stackDefinable (ErrorCell e) \<and> nextAllocationSucceeds rt \<longrightarrow>
               r = Returned UndefinedV
               \<and> cellProps (heapCells rt' a) ''stack'' = Some (plainSlot v)
               \<and> readStack rt' a = Some (Returned v, rt'))
         \<and> (\<not> stackDefinable (ErrorCell e) \<longrightarrow>
               r = Returned UndefinedV
               \<and> cellProps (heapCells rt' a) ''stack'' = props e ''stack'')
         \<and> (stackDefinable (ErrorCell e) \<and> \<not> nextAllocationSucceeds rt \<longrightarrow>
               r = Exception \<and> thrownValue rt' = Some RangeErrorT
               \<and> cellProps (heapCells rt' a) ''stack'' = props e ''stack'')"
proof -
  let ?e1 = "e\<lparr>stacktrace_field := None\<rparr>"
  let ?rt1 = "if stacktrace_field e \<noteq> None
              then rt\<lparr>heapCells := (heapCells rt)(a := ErrorCell ?e1)\<rparr> else rt"
  have cell1: "heapCells ?rt1 a = ErrorCell ?e1"
    using assms(1) by (cases e) auto
  have alloc1: "nextAllocationSucceeds ?rt1 = nextAllocationSucceeds rt"
    by (simp add: nextAllocationSucceeds_def)
  have def1: "stackDefinable (ErrorCell ?e1) = stackDefinable (ErrorCell e)"
    by (simp add: stackDefinable_def cellProps_def cellExtensible_def split: option.splits)
  obtain r2 rt2
    where dop: "defineOwnProperty ?rt1 a ''stack'' plainNonEnumerable (DataSlot v) = (r2, rt2)"
    by (cases "defineOwnProperty ?rt1 a ''stack'' plainNonEnumerable (DataSlot v)") auto
  have setter: "errorStackSetter rt \<lparr>getThisArg = ObjectV a, argList = v # rest\<rparr>
                  = (case r2 of Exception \<Rightarrow> (Exception, rt2)
                              | Returned _ \<Rightarrow> (Returned UndefinedV, rt2))"
    using assms(1) dop
    by (simp add: errorStackSetter_def dyn_vmcast_JSError_def toObject_def getArg_def Let_def
        split: CallResult.splits)
  from defineOwnProperty_cases [OF dop] cell1 alloc1 def1
  consider (rejected) "\<not> stackDefinable (ErrorCell e)" "r2 = Returned False" "rt2 = ?rt1"
    | (failed) "stackDefinable (ErrorCell e)" "\<not> nextAllocationSucceeds rt" "r2 = Exception"
        "heapCells rt2 = heapCells ?rt1" "thrownValue rt2 = Some RangeErrorT"
    | (defined) "stackDefinable (ErrorCell e)" "nextAllocationSucceeds rt" "r2 = Returned True"
        "heapCells rt2 = (heapCells ?rt1)
           (a := setCellProps (ErrorCell ?e1)
                   ((cellProps (ErrorCell ?e1))(''stack'' \<mapsto> plainSlot v)))"
    by (auto simp del: fun_upd_apply)
  then show ?thesis
  proof cases
    case rejected
    with setter assms(2) have "r = Returned UndefinedV" "rt' = ?rt1" by simp_all
    with rejected(1) cell1 show ?thesis
      by (auto simp: cellProps_def)
  next
    case failed
    with setter assms(2) have "r = Exception" "rt' = rt2" by simp_all
    with failed cell1 show ?thesis
      by (auto simp: cellProps_def)
  next
    case defined
    with setter assms(2) have r: "r = Returned UndefinedV" and rt': "rt' = rt2" by simp_all
    have cell: "heapCells rt' a = setCellProps (ErrorCell ?e1)
                   ((cellProps (ErrorCell ?e1))(''stack'' \<mapsto> plainSlot v))"
      using defined(4) rt' by simp
    then have p: "cellProps (heapCells rt' a) ''stack'' = Some (plainSlot v)"
      by simp
    have "\<exists>e'. heapCells rt' a = ErrorCell e' \<and> stacktrace_field e' = None"
      using cell by (simp add: setCellProps_def)
    with r p readStack_plain [OF p] defined(1,2) show ?thesis by simp
  qed
qed

theorem errorStackSetter_on_error_witness:
  "heapCells (heapRuntime (ErrorCell (capturedError True)) []) 0
     = ErrorCell (capturedError True)
   \<and> stackDefinable (ErrorCell (capturedError True))
   \<and> nextAllocationSucceeds (heapRuntime (ErrorCell (capturedError True)) [])
   \<and> fst (errorStackSetter (heapRuntime (ErrorCell (capturedError True)) [])
             \<lparr>getThisArg = ObjectV 0, argList = [StringV ''custom'']\<rparr>)
       = Returned UndefinedV
   \<and> cellProps
        (heapCells
           (snd (errorStackSetter (heapRuntime (ErrorCell (capturedError True)) [])
                   \<lparr>getThisArg = ObjectV 0, argList = [StringV ''custom'']\<rparr>)) 0)
        ''stack''
       = Some (plainSlot (StringV ''custom''))
   \<and> readStack
        (snd (errorStackSetter (heapRuntime (ErrorCell (capturedError True)) [])
                \<lparr>getThisArg = ObjectV 0, argList = [StringV ''custom'']\<rparr>)) 0
       = Some (Returned (StringV ''custom''),
               snd (errorStackSetter (heapRuntime (ErrorCell (capturedError True)) [])
                      \<lparr>getThisArg = ObjectV 0, argList = [StringV ''custom'']\<rparr>))"
proof -
  let ?rt = "heapRuntime (ErrorCell (capturedError True)) []"
  let ?args = "\<lparr>getThisArg = ObjectV 0, argList = [StringV ''custom'']\<rparr>"
  have cell: "heapCells ?rt 0 = ErrorCell (capturedError True)"
    by (simp add: heapRuntime_def)
  have run: "errorStackSetter ?rt ?args
               = (fst (errorStackSetter ?rt ?args), snd (errorStackSetter ?rt ?args))"
    by simp
  have definable: "stackDefinable (ErrorCell (capturedError True))"
    by (simp add: stackDefinable_def cellProps_def capturedError_def)
  have alloc: "nextAllocationSucceeds ?rt"
    by (simp add: nextAllocationSucceeds_def heapRuntime_def)
  show ?thesis
    using errorStackSetter_on_error [OF cell run] cell definable alloc
    by simp
qed

text \<open>
  C9 does not hold as stated. On an error whose \<open>stack\<close> accessor is not configurable
  (as on a frozen error) the setter returns \<open>undefined\<close> without redefining the
  property; on an ordinary captured error whose definition fails for lack of memory it
  returns \<open>EXCEPTION\<close>. In both cases the trace is gone and a later read of \<open>stack\<close>
  goes through the getter and yields the empty string, not the value \<open>custom\<close> that was
  set.
\<close>

theorem errorStackSetter_on_error_counterexample:
  "heapCells (heapRuntime (ErrorCell (capturedError False)) []) 0
     = ErrorCell (capturedError False)
   \<and> fst (errorStackSetter (heapRuntime (ErrorCell (capturedError False)) [])
             \<lparr>getThisArg = ObjectV 0, argList = [StringV ''custom'']\<rparr>)
       = Returned UndefinedV
   \<and> map_option fst
        (readStack
           (snd (errorStackSetter (heapRuntime (ErrorCell (capturedError False)) [])
                   \<lparr>getThisArg = ObjectV 0, argList = [StringV ''custom'']\<rparr>)) 0)
       = Some (Returned (StringV []))
   \<and> heapCells (heapRuntime (ErrorCell (capturedError True)) [False]) 0
       = ErrorCell (capturedError True)
   \<and> fst (errorStackSetter (heapRuntime (ErrorCell (capturedError True)) [False])
             \<lparr>getThisArg = ObjectV 0, argList = [StringV ''custom'']\<rparr>)
       = Exception
   \<and> map_option fst
        (readStack
           (snd (errorStackSetter (heapRuntime (ErrorCell (capturedError True)) [False])
                   \<lparr>getThisArg = ObjectV 0, argList = [StringV ''custom'']\<rparr>)) 0)
       = Some (Returned (StringV []))
   \<and> StringV [] \<noteq> StringV ''custom''"
  by (simp add: accessor_eval)

lemma toObject_cases:
  assumes "dyn_vmcast_JSError rt this = None"
  shows "((this = UndefinedV \<or> this = NullV)
            \<and> toObject rt this = (Exception, rt\<lparr>thrownValue := Some ToObjectTypeErrorT\<rparr>))
         \<or> (this \<noteq> UndefinedV \<and> this \<noteq> NullV
            \<and> (\<exists>target rt1 ob. toObject rt this = (Returned target, rt1)
                  \<and> heapCells rt1 target = ObjectCell ob
                  \<and> (\<forall>b. b \<noteq> target \<longrightarrow> heapCells rt1 b = heapCells rt b)
                  \<and> allocOutcomes rt1 = allocOutcomes rt
                  \<and> thrownValue rt1 = thrownValue rt))"
  using assms
  by (cases this)
     (auto simp: toObject_def dyn_vmcast_JSError_def split: Cell.splits)

lemma defineOwnProperty_thrown:
  assumes "defineOwnProperty rt addr name dpf slot = (Returned b, rt')"
  shows "thrownValue rt' = thrownValue rt"
  using assms
  by (auto simp: defineOwnProperty_def allocate_def Let_def
      split: if_splits list.splits bool.splits)

text \<open>
  C10 as the code has it. For a receiver that is not an error instance the getter
  raises its type error, and the setter has no such check: it disposes of no trace. If
  the receiver is \<open>undefined\<close> or \<open>null\<close>, the conversion \<open>toObject\<close> raises a type
  error and the setter propagates it. Otherwise the setter works on the object
  \<open>toObject\<close> returns and touches no other cell: when \<open>stack\<close> can be defined on that
  object and the allocation succeeds, it defines \<open>stack\<close> as the plain, non-enumerable
  value slot holding exactly the given value and returns \<open>undefined\<close>, raising nothing;
  when the definition is rejected it returns \<open>undefined\<close> and changes nothing more;
  when the allocation fails it propagates that exception.
\<close>

theorem errorStackSetter_on_non_error:
  assumes "dyn_vmcast_JSError rt this = None"
    and "errorStackSetter rt \<lparr>getThisArg = this, argList = v # rest\<rparr> = (r, rt')"
  shows "errorStackGetter rt \<lparr>getThisArg = this, argList = []\<rparr>
           = Some (Exception, rt\<lparr>thrownValue := Some (TypeErrorT getterTypeErrorMessage)\<rparr>)
         \<and> (this = UndefinedV \<or> this = NullV \<longrightarrow>
               r = Exception \<and> rt' = rt\<lparr>thrownValue := Some ToObjectTypeErrorT\<rparr>)
         \<and> (this \<noteq> UndefinedV \<and> this \<noteq> NullV \<longrightarrow>
               (\<exists>target rt1 ob.
                   toObject rt this = (Returned target, rt1)
                 \<and> heapCells rt1 target = ObjectCell ob
                 \<and> (\<forall>b. b \<noteq> target \<longrightarrow> heapCells rt' b = heapCells rt b)
                 \<and> (stackDefinable (ObjectCell ob) \<and> nextAllocationSucceeds rt \<longrightarrow>
                       r = Returned UndefinedV
                       \<and> cellProps (heapCells rt' target) ''stack'' = Some (plainSlot v)
                       \<and> thrownValue rt' = thrownValue rt)
                 \<and> (\<not> stackDefinable (ObjectCell ob) \<longrightarrow>
                       r = Returned UndefinedV \<and> rt' = rt1)
                 \<and> (stackDefinable (ObjectCell ob) \<and> \<not> nextAllocationSucceeds rt \<longrightarrow>
                       r = Exception \<and> thrownValue rt' = Some RangeErrorT)))"
proof -
  have getter: "errorStackGetter rt \<lparr>getThisArg = this, argList = []\<rparr>
           = Some (Exception, rt\<lparr>thrownValue := Some (TypeErrorT getterTypeErrorMessage)\<rparr>)"
    using assms(1) by (simp add: errorStackGetter_def raiseTypeError_def)
  have setter: "errorStackSetter rt \<lparr>getThisArg = this, argList = v # rest\<rparr>
      = (case toObject rt this of
           (Exception, rt2) \<Rightarrow> (Exception, rt2)
         | (Returned selfAddr, rt2) \<Rightarrow>
             (case defineOwnProperty rt2 selfAddr ''stack'' plainNonEnumerable (DataSlot v) of
                (Exception, rt3) \<Rightarrow> (Exception, rt3)
              | (Returned _, rt3) \<Rightarrow> (Returned UndefinedV, rt3)))"
  proof -
    have arg: "getArg \<lparr>getThisArg = this, argList = v # rest\<rparr> 0 = v"
      by (simp add: getArg_def)
    show ?thesis
      unfolding errorStackSetter_def Let_def arg
      using assms(1) by simp
  qed
  from toObject_cases [OF assms(1)]
  consider (raises) "this = UndefinedV \<or> this = NullV"
      "toObject rt this = (Exception, rt\<lparr>thrownValue := Some ToObjectTypeErrorT\<rparr>)"
    | (object) target rt1 ob where "this \<noteq> UndefinedV" "this \<noteq> NullV"
      "toObject rt this = (Returned target, rt1)"
      "heapCells rt1 target = ObjectCell ob"
      "\<forall>b. b \<noteq> target \<longrightarrow> heapCells rt1 b = heapCells rt b"
      "allocOutcomes rt1 = allocOutcomes rt"
      "thrownValue rt1 = thrownValue rt"
    by blast
  then show ?thesis
  proof cases
    case raises
    with setter assms(2) have "r = Exception"
      "rt' = rt\<lparr>thrownValue := Some ToObjectTypeErrorT\<rparr>" by simp_all
    with getter raises(1) show ?thesis by auto
  next
    case object
    obtain r2 rt2
      where dop: "defineOwnProperty rt1 target ''stack'' plainNonEnumerable (DataSlot v)
                    = (r2, rt2)"
      by (cases "defineOwnProperty rt1 target ''stack'' plainNonEnumerable (DataSlot v)") auto
    have res: "(r, rt') = (case r2 of Exception \<Rightarrow> (Exception, rt2)
                                     | Returned _ \<Rightarrow> (Returned UndefinedV, rt2))"
      using setter assms(2) object(3) dop by (simp split: CallResult.splits)
    have alloc1: "nextAllocationSucceeds rt1 = nextAllocationSucceeds rt"
      using object(6) by (simp add: nextAllocationSucceeds_def)
    from defineOwnProperty_cases [OF dop] object(4) alloc1
    consider (rejected) "\<not> stackDefinable (ObjectCell ob)" "r2 = Returned False" "rt2 = rt1"
      | (failed) "stackDefinable (ObjectCell ob)" "\<not> nextAllocationSucceeds rt"
          "r2 = Exception" "heapCells rt2 = heapCells rt1"
          "thrownValue rt2 = Some RangeErrorT"
      | (defined) "stackDefinable (ObjectCell ob)" "nextAllocationSucceeds rt"
          "r2 = Returned True"
          "heapCells rt2 = (heapCells rt1)
             (target := setCellProps (ObjectCell ob)
                     ((cellProps (ObjectCell ob))(''stack'' \<mapsto> plainSlot v)))"
      by (auto simp del: fun_upd_apply)
    then have body:
      "(\<forall>b. b \<noteq> target \<longrightarrow> heapCells rt' b = heapCells rt b)
       \<and> (stackDefinable (ObjectCell ob) \<and> nextAllocationSucceeds rt \<longrightarrow>
             r = Returned UndefinedV
             \<and> cellProps (heapCells rt' target) ''stack'' = Some (plainSlot v)
             \<and> thrownValue rt' = thrownValue rt)
       \<and> (\<not> stackDefinable (ObjectCell ob) \<longrightarrow> r = Returned UndefinedV \<and> rt' = rt1)
       \<and> (stackDefinable (ObjectCell ob) \<and> \<not> nextAllocationSucceeds rt \<longrightarrow>
             r = Exception \<and> thrownValue rt' = Some RangeErrorT)"
    proof cases
      case rejected
      with res have "r = Returned UndefinedV" "rt' = rt1" by simp_all
      with rejected(1) object(5) show ?thesis by simp
    next
      case failed
      with res have "r = Exception" "rt' = rt2" by simp_all
      with failed object(5) show ?thesis by simp
    next
      case defined
      with res have r: "r = Returned UndefinedV" and rt': "rt' = rt2" by simp_all
      have thrown: "thrownValue rt' = thrownValue rt"
        using defineOwnProperty_thrown [OF dop [unfolded defined(3)]] rt' object(7) by simp
      show ?thesis
        using r rt' thrown defined(1,2,4) object(5) by simp
    qed
    show ?thesis
      using getter object(1,2,3,4) body by blast
  qed
qed

theorem errorStackSetter_on_non_error_witness:
  "dyn_vmcast_JSError (heapRuntime (ObjectCell emptyObject) []) (ObjectV 0) = None
   \<and> toObject (heapRuntime (ObjectCell emptyObject) []) (ObjectV 0)
       = (Returned 0, heapRuntime (ObjectCell emptyObject) [])
   \<and> heapCells (heapRuntime (ObjectCell emptyObject) []) 0 = ObjectCell emptyObject
   \<and> stackDefinable (ObjectCell emptyObject)
   \<and> nextAllocationSucceeds (heapRuntime (ObjectCell emptyObject) [])
   \<and> fst (errorStackSetter (heapRuntime (ObjectCell emptyObject) [])
             \<lparr>getThisArg = ObjectV 0, argList = [NumberV 7]\<rparr>)
       = Returned UndefinedV
   \<and> cellProps
        (heapCells
           (snd (errorStackSetter (heapRuntime (ObjectCell emptyObject) [])
                   \<lparr>getThisArg = ObjectV 0, argList = [NumberV 7]\<rparr>)) 0)
        ''stack''
       = Some (plainSlot (NumberV 7))"
proof -
  let ?rt = "heapRuntime (ObjectCell emptyObject) []"
  let ?args = "\<lparr>getThisArg = ObjectV 0, argList = [NumberV 7]\<rparr>"
  have cast: "dyn_vmcast_JSError ?rt (ObjectV 0) = None"
    by (simp add: dyn_vmcast_JSError_def heapRuntime_def)
  have run: "errorStackSetter ?rt ?args
               = (fst (errorStackSetter ?rt ?args), snd (errorStackSetter ?rt ?args))"
    by simp
  have conv: "toObject ?rt (ObjectV 0) = (Returned 0, ?rt)"
    by (simp add: toObject_def)
  have cell: "heapCells ?rt 0 = ObjectCell emptyObject"
    by (simp add: heapRuntime_def)
  have definable: "stackDefinable (ObjectCell emptyObject)"
    by (simp add: stackDefinable_def cellProps_def cellExtensible_def emptyObject_def)
  have alloc: "nextAllocationSucceeds ?rt"
    by (simp add: nextAllocationSucceeds_def heapRuntime_def)
  show ?thesis
    using errorStackSetter_on_non_error [OF cast run] cast conv cell definable alloc
    by auto
qed

text \<open>
  C10 does not hold as stated. The receiver \<open>undefined\<close> is not an error instance, and
  the setter called on it returns \<open>EXCEPTION\<close> with the type error of \<open>toObject\<close>
  pending; no property is defined.
\<close>

theorem errorStackSetter_on_non_error_counterexample:
  "dyn_vmcast_JSError (heapRuntime (ObjectCell emptyObject) []) UndefinedV = None
   \<and> fst (errorStackSetter (heapRuntime (ObjectCell emptyObject) [])
             \<lparr>getThisArg = UndefinedV, argList = [NumberV 7]\<rparr>)
       = Exception
   \<and> thrownValue
        (snd (errorStackSetter (heapRuntime (ObjectCell emptyObject) [])
                \<lparr>getThisArg = UndefinedV, argList = [NumberV 7]\<rparr>))
       = Some ToObjectTypeErrorT
   \<and> heapCells
        (snd (errorStackSetter (heapRuntime (ObjectCell emptyObject) [])
                \<lparr>getThisArg = UndefinedV, argList = [NumberV 7]\<rparr>)) 0
       = ObjectCell emptyObject"
  by (simp add: accessor_eval)

section \<open>Capture: the names recorded, and calls after a release\<close>

lemma namesLoop_names:
  "namesLoop rt skipTopFrame frames frameIndex namesIndex names = (Some names', rt') \<Longrightarrow>
   namesIndex = length names \<Longrightarrow>
     names' = names @ map frameFunctionName
                        (if frameIndex = 0 \<and> skipTopFrame then tl frames else frames)"
proof (induction frames arbitrary: rt frameIndex namesIndex names)
  case Nil
  then show ?case by simp
next
  case (Cons cf cfs)
  show ?case
  proof (cases "frameIndex = 0 \<and> skipTopFrame")
    case True
    with Cons.prems
    have "namesLoop rt skipTopFrame cfs (frameIndex + 1) namesIndex names = (Some names', rt')"
      by simp
    from Cons.IH [OF this Cons.prems(2)] True show ?thesis by simp
  next
    case False
    obtain r rt1 where rs: "PropStorage_resize rt names (namesIndex + 1) = (r, rt1)"
      by (cases "PropStorage_resize rt names (namesIndex + 1)") auto
    with Cons.prems False obtain names1 where r: "r = Returned names1"
      and rec: "namesLoop rt1 skipTopFrame cfs (frameIndex + 1) (namesIndex + 1)
                  (names1[namesIndex := frameFunctionName cf]) = (Some names', rt')"
      by (cases r) auto
    from PropStorage_resize_cases [OF rs] r Cons.prems(2)
    have "names1 = names @ [UndefinedV]" by auto
    then have upd: "names1[namesIndex := frameFunctionName cf] = names @ [frameFunctionName cf]"
      using Cons.prems(2) by simp
    have "namesIndex + 1 = length (names1[namesIndex := frameFunctionName cf])"
      using upd Cons.prems(2) by simp
    from Cons.IH [OF rec this] upd False show ?thesis by auto
  qed
qed

lemma getCallStackFunctionNames_names:
  assumes "getCallStackFunctionNames rt skipTopFrame sizeHint = (Some names, rt')"
  shows "names = map frameFunctionName (namedFrameList rt skipTopFrame)"
proof -
  obtain r rt1
    where cr: "(ArrayStorage_create rt sizeHint :: HermesValue list CallResult \<times> Runtime)
                 = (r, rt1)"
    by (cases "ArrayStorage_create rt sizeHint :: HermesValue list CallResult \<times> Runtime") auto
  with assms have r: "r = Returned []"
    and nl: "namesLoop rt1 skipTopFrame (getStackFrames rt1) 0 0 [] = (Some names, rt')"
    using ArrayStorage_create_cases [OF cr]
    by (auto simp: getCallStackFunctionNames_def)
  from namesLoop_names [OF nl] ArrayStorage_create_cases [OF cr]
  show ?thesis by (simp add: namedFrameList_def)
qed

lemma frameFunctionName_unresolved:
  "nameUnresolved cf \<Longrightarrow> frameFunctionName cf = UndefinedV"
  by (auto simp: nameUnresolved_def frameFunctionName_def
      split: CalleeRef.splits NamedDescriptor.splits option.splits)

text \<open>
  A call that passes both early returns and meets no allocation failure while the
  trace sequence is built: it stores the trace and whatever name list
  \<open>getCallStackFunctionNames\<close> returns, and returns \<open>RETURNED\<close>.
\<close>

lemma recordStackTrace_past_guards:
  assumes "stacktrace_field self = None"
    and "skipTopFrame \<or> cbOpt \<noteq> None \<or> \<not> topFrameIsJSFunction rt"
    and "\<not> skipTopFrame \<or> getStackFrames rt \<noteq> []"
    and "False \<notin> set (take (traceAllocations rt skipTopFrame cbOpt) (allocOutcomes rt))"
  shows "\<exists>rt1 sizeHint.
           getStackFrames rt1 = getStackFrames rt
         \<and> allocOutcomes rt1 = drop (traceAllocations rt skipTopFrame cbOpt) (allocOutcomes rt)
         \<and> recordStackTrace rt self skipTopFrame cbOpt ip
             = (case getCallStackFunctionNames rt1 skipTopFrame sizeHint of
                  (funcNames, rt2) \<Rightarrow>
                    Some (RETURNED,
                          self\<lparr>stacktrace_field :=
                                 Some (butlast (topEntries skipTopFrame cbOpt ip
                                                @ map savedEntry (getStackFrames rt))),
                               funcNames_field := funcNames\<rparr>,
                          rt2))"
proof -
  obtain st1 stack ds rt1
    where bt: "buildTrace rt skipTopFrame cbOpt ip = (st1, stack, ds, rt1)"
    by (cases "buildTrace rt skipTopFrame cbOpt ip") auto
  with buildTrace_exception_iff [of rt skipTopFrame cbOpt ip] assms(4)
  have st1: "st1 = RETURNED" by (cases st1) auto
  note b = buildTrace_returned [OF bt [unfolded st1]]
  note o = buildTrace_returned_outcomes [OF bt [unfolded st1]]
  have ne: "stack \<noteq> []"
    using b(1) assms(3) by (auto simp: topEntries_def)
  have "recordStackTrace rt self skipTopFrame cbOpt ip
          = (case getCallStackFunctionNames rt1 skipTopFrame (length (butlast stack)) of
               (funcNames, rt2) \<Rightarrow>
                 Some (RETURNED,
                       self\<lparr>stacktrace_field := Some (butlast stack),
                            funcNames_field := funcNames\<rparr>,
                       rt2))"
    using assms(1,2) bt st1 ne by (auto simp: recordStackTrace_def Let_def)
  with b(1,2) o show ?thesis by auto
qed

text \<open>
  The setter always, and the getter in a build without the debugger, leave the error
  without a trace; they change nothing else but the properties.
\<close>

lemma defineOwnProperty_cell:
  assumes "defineOwnProperty rt a name dpf slot = (r, rt')"
    and "heapCells rt a = ErrorCell e"
  shows "\<exists>ps. heapCells rt' a = ErrorCell (e\<lparr>props := ps\<rparr>)"
proof -
  have same: "ErrorCell e = ErrorCell (e\<lparr>props := props e\<rparr>)" by simp
  from assms show ?thesis
    by (auto simp: defineOwnProperty_def allocate_def Let_def setCellProps_def
        split: if_splits list.splits bool.splits intro: exI [of _ "props e"])
qed

lemma released_commute:
  "e\<lparr>stacktrace_field := None, props := ps\<rparr> = e\<lparr>props := ps, stacktrace_field := None\<rparr>"
  by (cases e) simp

lemma errorStackSetter_releases:
  assumes "heapCells rt a = ErrorCell e"
    and "errorStackSetter rt \<lparr>getThisArg = ObjectV a, argList = args\<rparr> = (r, rt')"
  shows "\<exists>ps. heapCells rt' a = ErrorCell (e\<lparr>props := ps, stacktrace_field := None\<rparr>)"
proof -
  let ?e1 = "e\<lparr>stacktrace_field := None\<rparr>"
  let ?rt1 = "if stacktrace_field e \<noteq> None
              then rt\<lparr>heapCells := (heapCells rt)(a := ErrorCell ?e1)\<rparr> else rt"
  have cell1: "heapCells ?rt1 a = ErrorCell ?e1"
    using assms(1) by (cases e) auto
  obtain r2 rt2
    where dop: "defineOwnProperty ?rt1 a ''stack'' plainNonEnumerable
                  (DataSlot (getArg \<lparr>getThisArg = ObjectV a, argList = args\<rparr> 0)) = (r2, rt2)"
    by (cases "defineOwnProperty ?rt1 a ''stack'' plainNonEnumerable
                  (DataSlot (getArg \<lparr>getThisArg = ObjectV a, argList = args\<rparr> 0))") auto
  have "rt' = rt2"
    using assms dop
    by (auto simp: errorStackSetter_def dyn_vmcast_JSError_def toObject_def Let_def
        split: CallResult.splits)
  with defineOwnProperty_cell [OF dop cell1] show ?thesis
    unfolding released_commute by simp
qed

lemma errorStackGetter_releases:
  assumes "heapCells rt a = ErrorCell e"
    and "stacktrace_field e \<noteq> None"
    and "\<not> debuggerEnabled rt"
    and "errorStackGetter rt \<lparr>getThisArg = ObjectV a, argList = args\<rparr> = Some (r, rt')"
  shows "\<exists>ps. heapCells rt' a = ErrorCell (e\<lparr>props := ps, stacktrace_field := None\<rparr>)"
proof -
  let ?e1 = "e\<lparr>stacktrace_field := None\<rparr>"
  obtain stack rt1 where cs: "constructStackTraceString rt e = Some (stack, rt1)"
    using assms
    by (auto simp: errorStackGetter_def dyn_vmcast_JSError_def split: option.splits)
  then have rt1: "heapCells rt1 = heapCells rt" "debuggerEnabled rt1 = debuggerEnabled rt"
    by (auto simp: constructStackTraceString_def clearThrownValue_def split: option.splits)
  let ?rt2 = "rt1\<lparr>heapCells := (heapCells rt1)(a := ErrorCell ?e1)\<rparr>"
  let ?created = "if length stack > maxStringLength ?rt2
                  then (StringV ''stack trace too long'', clearThrownValue ?rt2)
                  else (StringV stack, ?rt2)"
  have cell3: "heapCells (snd ?created) a = ErrorCell ?e1"
    by (simp add: clearThrownValue_def)
  obtain r4 rt4
    where dop: "defineOwnProperty (snd ?created) a ''stack'' plainNonEnumerable
                  (DataSlot (fst ?created)) = (r4, rt4)"
    by (cases "defineOwnProperty (snd ?created) a ''stack'' plainNonEnumerable
                  (DataSlot (fst ?created))") auto
  have "rt' = rt4"
    using assms cs rt1 dop
    by (auto simp: errorStackGetter_def dyn_vmcast_JSError_def Let_def
        split: CallResult.splits if_splits)
  with defineOwnProperty_cell [OF dop cell3] show ?thesis
    unfolding released_commute by simp
qed

text \<open>The definitions that evaluate a capture on a concrete runtime.\<close>

lemmas capture_eval =
  recordStackTrace_def buildTrace_def ArrayStorage_create_def allocate_def
  pushTopEntry_def addDomain_def ArrayStorage_push_back_def savedEntry_def getOffsetOf_def
  getCallStackFunctionNames_def PropStorage_resize_def frameFunctionName_def
  topFrameIsJSFunction_def clearThrownValue_def Let_def

text \<open>
  C3 as the code has it. Once a call of \<open>recordStackTrace\<close> has left a trace on the
  error, any further call made while the error still holds that trace, whatever its
  arguments and whatever the runtime state, returns \<open>RETURNED\<close> and changes neither
  the error (so the trace is the one of the first call) nor the runtime. The test is on
  the field only: once the trace has been released (the setter and the getter change
  nothing but the properties and \<open>stacktrace_\<close>), a call that passes the guard on the
  top frame and meets no allocation failure in the trace sequence captures again and
  stores the trace of the frames then live.
\<close>

theorem recordStackTrace_first_write_wins:
  assumes "recordStackTrace rt self skipTopFrame cbOpt ip = Some (st, self', rt')"
    and "stacktrace_field self' = Some trace"
  shows "recordStackTrace rt2 self' skipTopFrame2 cbOpt2 ip2 = Some (RETURNED, self', rt2)
         \<and> ((skipTopFrame2 \<or> cbOpt2 \<noteq> None \<or> \<not> topFrameIsJSFunction rt2)
             \<and> (\<not> skipTopFrame2 \<or> getStackFrames rt2 \<noteq> [])
             \<and> False \<notin> set (take (traceAllocations rt2 skipTopFrame2 cbOpt2)
                                  (allocOutcomes rt2))
             \<longrightarrow> (\<exists>funcNames rt3.
                    recordStackTrace rt2 (self'\<lparr>props := ps, stacktrace_field := None\<rparr>)
                        skipTopFrame2 cbOpt2 ip2
                      = Some (RETURNED,
                              self'\<lparr>props := ps,
                                    stacktrace_field :=
                                      Some (butlast (topEntries skipTopFrame2 cbOpt2 ip2
                                                     @ map savedEntry (getStackFrames rt2))),
                                    funcNames_field := funcNames\<rparr>,
                              rt3)))"
proof -
  have held: "recordStackTrace rt2 self' skipTopFrame2 cbOpt2 ip2 = Some (RETURNED, self', rt2)"
    using assms(2) by (simp add: recordStackTrace_def)
  have released: "\<exists>funcNames rt3.
      recordStackTrace rt2 (self'\<lparr>props := ps, stacktrace_field := None\<rparr>)
          skipTopFrame2 cbOpt2 ip2
        = Some (RETURNED,
                self'\<lparr>props := ps,
                      stacktrace_field :=
                        Some (butlast (topEntries skipTopFrame2 cbOpt2 ip2
                                       @ map savedEntry (getStackFrames rt2))),
                      funcNames_field := funcNames\<rparr>,
                rt3)"
    if g: "skipTopFrame2 \<or> cbOpt2 \<noteq> None \<or> \<not> topFrameIsJSFunction rt2"
      and p: "\<not> skipTopFrame2 \<or> getStackFrames rt2 \<noteq> []"
      and a: "False \<notin> set (take (traceAllocations rt2 skipTopFrame2 cbOpt2)
                                (allocOutcomes rt2))"
  proof -
    have unset: "stacktrace_field (self'\<lparr>props := ps, stacktrace_field := None\<rparr>) = None"
      by simp
    from recordStackTrace_past_guards [OF unset g p a, of ip2] obtain rt1 sizeHint
      where run: "recordStackTrace rt2 (self'\<lparr>props := ps, stacktrace_field := None\<rparr>)
                    skipTopFrame2 cbOpt2 ip2
             = (case getCallStackFunctionNames rt1 skipTopFrame2 sizeHint of
                  (funcNames, rt3) \<Rightarrow>
                    Some (RETURNED,
                          self'\<lparr>props := ps, stacktrace_field := None\<rparr>
                            \<lparr>stacktrace_field :=
                                 Some (butlast (topEntries skipTopFrame2 cbOpt2 ip2
                                                @ map savedEntry (getStackFrames rt2))),
                               funcNames_field := funcNames\<rparr>,
                          rt3))"
      by blast
    obtain fn rt3 where "getCallStackFunctionNames rt1 skipTopFrame2 sizeHint = (fn, rt3)"
      by (cases "getCallStackFunctionNames rt1 skipTopFrame2 sizeHint") auto
    with run show ?thesis by auto
  qed
  from held released show ?thesis by blast
qed

theorem recordStackTrace_first_write_wins_witness:
  "recordStackTrace (exampleRuntime [nativeFrame] []) freshError False None 0
     = Some (RETURNED, firstCapture, exampleRuntime [nativeFrame] [])
   \<and> stacktrace_field firstCapture = Some [nativeEntry]
   \<and> recordStackTrace (exampleRuntime [scriptFrame 1] [False]) firstCapture
        True (Some (exampleCodeBlock 2)) 7
       = Some (RETURNED, firstCapture, exampleRuntime [scriptFrame 1] [False])
   \<and> getStackFrames (exampleRuntime [nativeFrame, nativeFrame] [])
       = [nativeFrame, nativeFrame]
   \<and> traceAllocations (exampleRuntime [nativeFrame, nativeFrame] []) False None = 1
   \<and> allocOutcomes (exampleRuntime [nativeFrame, nativeFrame] []) = []
   \<and> (\<exists>funcNames rt3.
         recordStackTrace (exampleRuntime [nativeFrame, nativeFrame] []) releasedCapture
             False None 0
           = Some (RETURNED,
                   releasedCapture\<lparr>stacktrace_field := Some [nativeEntry, nativeEntry],
                                    funcNames_field := funcNames\<rparr>,
                   rt3))"
proof -
  let ?rt2 = "exampleRuntime [nativeFrame, nativeFrame] []"
  have first: "recordStackTrace (exampleRuntime [nativeFrame] []) freshError False None 0
     = Some (RETURNED, firstCapture, exampleRuntime [nativeFrame] [])"
    by (simp add: capture_eval exampleRuntime_def nativeFrame_def freshError_def
        firstCapture_def nativeEntry_def)
  have recorded: "stacktrace_field firstCapture = Some [nativeEntry]"
    by (simp add: firstCapture_def)
  have frames: "getStackFrames ?rt2 = [nativeFrame, nativeFrame]"
    by (simp add: exampleRuntime_def)
  have count: "traceAllocations ?rt2 False None = 1"
    by (simp add: traceAllocations_def topDomains_def savedDomains_def exampleRuntime_def
        nativeFrame_def)
  have outcomes: "allocOutcomes ?rt2 = []"
    by (simp add: exampleRuntime_def)
  have g: "False \<or> (None :: CodeBlock option) \<noteq> None \<or> \<not> topFrameIsJSFunction ?rt2"
    by (simp add: topFrameIsJSFunction_def exampleRuntime_def nativeFrame_def)
  have p: "\<not> False \<or> getStackFrames ?rt2 \<noteq> []"
    by simp
  have a: "False \<notin> set (take (traceAllocations ?rt2 False None) (allocOutcomes ?rt2))"
    unfolding outcomes by simp
  have entries: "butlast (topEntries False None 0 @ map savedEntry (getStackFrames ?rt2))
                   = [nativeEntry, nativeEntry]"
    unfolding frames
    by (simp add: topEntries_def savedEntry_def nativeFrame_def nativeEntry_def)
  have held: "recordStackTrace (exampleRuntime [scriptFrame 1] [False]) firstCapture
                True (Some (exampleCodeBlock 2)) 7
       = Some (RETURNED, firstCapture, exampleRuntime [scriptFrame 1] [False])"
    using recordStackTrace_first_write_wins [OF first recorded,
        of "exampleRuntime [scriptFrame 1] [False]" True "Some (exampleCodeBlock 2)" 7]
    by simp
  have again: "\<exists>funcNames rt3.
         recordStackTrace ?rt2 releasedCapture False None 0
           = Some (RETURNED,
                   releasedCapture\<lparr>stacktrace_field := Some [nativeEntry, nativeEntry],
                                    funcNames_field := funcNames\<rparr>,
                   rt3)"
    using recordStackTrace_first_write_wins [OF first recorded,
        of ?rt2 False None 0 "[''stack'' \<mapsto> plainSlot (StringV ''custom'')]"] g p a
    unfolding entries by (simp add: releasedCapture_def)
  show ?thesis
    using first recorded held frames count outcomes again by simp
qed

text \<open>
  C3 does not hold as stated. A first call captures the trace of one native frame. The
  setter, invoked on that error, releases the trace. A second call of
  \<open>recordStackTrace\<close> on the same error, now with two native frames live, is not a
  no-op: it stores a trace of two entries, which is not the trace of the first call.
\<close>

theorem recordStackTrace_first_write_wins_counterexample:
  "recordStackTrace (exampleRuntime [nativeFrame] []) freshError False None 0
     = Some (RETURNED, firstCapture, exampleRuntime [nativeFrame] [])
   \<and> stacktrace_field firstCapture = Some [nativeEntry]
   \<and> dyn_vmcast_JSError
        (snd (errorStackSetter (heapRuntime (ErrorCell firstCapture) [])
                \<lparr>getThisArg = ObjectV 0, argList = [StringV ''custom'']\<rparr>))
        (ObjectV 0)
       = Some (0, releasedCapture)
   \<and> recordStackTrace (exampleRuntime [nativeFrame, nativeFrame] []) releasedCapture
        False None 0
       = Some (RETURNED,
               releasedCapture\<lparr>stacktrace_field := Some [nativeEntry, nativeEntry],
                                funcNames_field := Some [UndefinedV, UndefinedV]\<rparr>,
               exampleRuntime [nativeFrame, nativeFrame] [])
   \<and> [nativeEntry, nativeEntry] \<noteq> [nativeEntry]"
proof -
  have first: "recordStackTrace (exampleRuntime [nativeFrame] []) freshError False None 0
     = Some (RETURNED, firstCapture, exampleRuntime [nativeFrame] [])"
    by (simp add: capture_eval exampleRuntime_def nativeFrame_def freshError_def
        firstCapture_def nativeEntry_def)
  have released: "dyn_vmcast_JSError
        (snd (errorStackSetter (heapRuntime (ErrorCell firstCapture) [])
                \<lparr>getThisArg = ObjectV 0, argList = [StringV ''custom'']\<rparr>))
        (ObjectV 0)
       = Some (0, releasedCapture)"
    by (simp add: accessor_eval firstCapture_def releasedCapture_def freshError_def)
  have second: "recordStackTrace (exampleRuntime [nativeFrame, nativeFrame] [])
        releasedCapture False None 0
       = Some (RETURNED,
               releasedCapture\<lparr>stacktrace_field := Some [nativeEntry, nativeEntry],
                                funcNames_field := Some [UndefinedV, UndefinedV]\<rparr>,
               exampleRuntime [nativeFrame, nativeFrame] [])"
    by (simp add: capture_eval exampleRuntime_def nativeFrame_def freshError_def
        firstCapture_def releasedCapture_def nativeEntry_def)
  show ?thesis
    using first released second by (simp add: firstCapture_def)
qed

text \<open>
  C8 as the code has it. Suppose \<open>recordStackTrace\<close> passes its two early returns and
  every allocation of the trace sequence succeeds (popping the sentinel needs a
  non-empty sequence: the top frame is not skipped or there is a live frame). If one of
  the allocations made while the name list is built fails (the creation of the list, or
  one of the resizes, one per named frame), the call still returns \<open>RETURNED\<close> and
  records the trace, \<open>funcNames_\<close> is null, and no exception is left pending. If none
  of them fails, the call returns \<open>RETURNED\<close>, records the trace, and \<open>funcNames_\<close> is
  present with one entry per named frame: a frame whose name cannot be resolved
  contributes \<open>undefined\<close> and does not make the list absent.
\<close>

theorem recordStackTrace_name_failure_not_fatal:
  assumes "stacktrace_field self = None"
    and "skipTopFrame \<or> cbOpt \<noteq> None \<or> \<not> topFrameIsJSFunction rt"
    and "\<not> skipTopFrame \<or> getStackFrames rt \<noteq> []"
    and "False \<notin> set (take (traceAllocations rt skipTopFrame cbOpt) (allocOutcomes rt))"
  shows "(False \<in> set (take (Suc (namedFrames rt skipTopFrame))
                          (drop (traceAllocations rt skipTopFrame cbOpt) (allocOutcomes rt)))
          \<longrightarrow> (\<exists>rt'. recordStackTrace rt self skipTopFrame cbOpt ip
                       = Some (RETURNED,
                               self\<lparr>stacktrace_field :=
                                      Some (butlast (topEntries skipTopFrame cbOpt ip
                                                     @ map savedEntry (getStackFrames rt))),
                                    funcNames_field := None\<rparr>,
                               rt')
                     \<and> thrownValue rt' = None))
         \<and> (False \<notin> set (take (Suc (namedFrames rt skipTopFrame))
                             (drop (traceAllocations rt skipTopFrame cbOpt) (allocOutcomes rt)))
             \<longrightarrow> (\<exists>rt'. recordStackTrace rt self skipTopFrame cbOpt ip
                          = Some (RETURNED,
                                  self\<lparr>stacktrace_field :=
                                         Some (butlast (topEntries skipTopFrame cbOpt ip
                                                        @ map savedEntry (getStackFrames rt))),
                                       funcNames_field :=
                                         Some (map frameFunctionName
                                                 (namedFrameList rt skipTopFrame))\<rparr>,
                                  rt')))
         \<and> (nameUnresolved cf \<longrightarrow> frameFunctionName cf = UndefinedV)"
proof -
  let ?trace = "butlast (topEntries skipTopFrame cbOpt ip @ map savedEntry (getStackFrames rt))"
  let ?after = "drop (traceAllocations rt skipTopFrame cbOpt) (allocOutcomes rt)"
  from recordStackTrace_past_guards [OF assms, of ip] obtain rt1 sizeHint
    where frames: "getStackFrames rt1 = getStackFrames rt"
      and outcomes: "allocOutcomes rt1 = ?after"
      and run: "recordStackTrace rt self skipTopFrame cbOpt ip
             = (case getCallStackFunctionNames rt1 skipTopFrame sizeHint of
                  (funcNames, rt2) \<Rightarrow>
                    Some (RETURNED,
                          self\<lparr>stacktrace_field := Some ?trace, funcNames_field := funcNames\<rparr>,
                          rt2))"
    by blast
  obtain fn rt2 where gn: "getCallStackFunctionNames rt1 skipTopFrame sizeHint = (fn, rt2)"
    by (cases "getCallStackFunctionNames rt1 skipTopFrame sizeHint") auto
  have named: "namedFrames rt1 skipTopFrame = namedFrames rt skipTopFrame"
    using frames by (simp add: namedFrames_def)
  have listed: "namedFrameList rt1 skipTopFrame = namedFrameList rt skipTopFrame"
    using frames by (simp add: namedFrameList_def)
  have iff: "fn = None \<longleftrightarrow> False \<in> set (take (Suc (namedFrames rt skipTopFrame)) ?after)"
    using getCallStackFunctionNames_none_iff [of rt1 skipTopFrame sizeHint] gn named outcomes
    by simp
  have res: "recordStackTrace rt self skipTopFrame cbOpt ip
               = Some (RETURNED,
                       self\<lparr>stacktrace_field := Some ?trace, funcNames_field := fn\<rparr>, rt2)"
    using run gn by simp
  have failing: "\<exists>rt'. recordStackTrace rt self skipTopFrame cbOpt ip
                       = Some (RETURNED,
                               self\<lparr>stacktrace_field := Some ?trace, funcNames_field := None\<rparr>,
                               rt')
                     \<and> thrownValue rt' = None"
    if "False \<in> set (take (Suc (namedFrames rt skipTopFrame)) ?after)"
  proof -
    from that iff have fn: "fn = None" by simp
    with getCallStackFunctionNames_none_cleared [OF gn [unfolded fn]] res
    show ?thesis by simp
  qed
  have succeeding: "\<exists>rt'. recordStackTrace rt self skipTopFrame cbOpt ip
                          = Some (RETURNED,
                                  self\<lparr>stacktrace_field := Some ?trace,
                                       funcNames_field :=
                                         Some (map frameFunctionName
                                                 (namedFrameList rt skipTopFrame))\<rparr>,
                                  rt')"
    if "False \<notin> set (take (Suc (namedFrames rt skipTopFrame)) ?after)"
  proof -
    from that iff obtain names where fn: "fn = Some names" by (cases fn) auto
    from getCallStackFunctionNames_names [OF gn [unfolded fn]] listed
    have "names = map frameFunctionName (namedFrameList rt skipTopFrame)" by simp
    with res fn show ?thesis by simp
  qed
  from failing succeeding frameFunctionName_unresolved [of cf] show ?thesis by blast
qed

theorem recordStackTrace_name_failure_not_fatal_witness:
  "stacktrace_field freshError = None
   \<and> getStackFrames (exampleRuntime [nativeFrame] [True, True, False]) = [nativeFrame]
   \<and> traceAllocations (exampleRuntime [nativeFrame] [True, True, False]) False None = 1
   \<and> namedFrames (exampleRuntime [nativeFrame] [True, True, False]) False = 1
   \<and> allocOutcomes (exampleRuntime [nativeFrame] [True, True, False]) = [True, True, False]
   \<and> (\<exists>rt'. recordStackTrace (exampleRuntime [nativeFrame] [True, True, False]) freshError
                False None 0
              = Some (RETURNED,
                      freshError\<lparr>stacktrace_field := Some [nativeEntry],
                                 funcNames_field := None\<rparr>,
                      rt')
            \<and> thrownValue rt' = None)
   \<and> getStackFrames (exampleRuntime [nativeFrame, accessorNamedFrame] [])
       = [nativeFrame, accessorNamedFrame]
   \<and> allocOutcomes (exampleRuntime [nativeFrame, accessorNamedFrame] []) = []
   \<and> nameUnresolved accessorNamedFrame
   \<and> frameFunctionName accessorNamedFrame = UndefinedV
   \<and> (\<exists>rt'. recordStackTrace (exampleRuntime [nativeFrame, accessorNamedFrame] [])
                freshError True None 0
              = Some (RETURNED,
                      freshError\<lparr>stacktrace_field := Some [nativeEntry],
                                 funcNames_field := Some [UndefinedV]\<rparr>,
                      rt'))"
proof -
  let ?rt = "exampleRuntime [nativeFrame] [True, True, False]"
  let ?rt2 = "exampleRuntime [nativeFrame, accessorNamedFrame] []"
  have unset: "stacktrace_field freshError = None"
    by (simp add: freshError_def)
  have frames: "getStackFrames ?rt = [nativeFrame]"
    by (simp add: exampleRuntime_def)
  have noguard: "False \<or> (None :: CodeBlock option) \<noteq> None \<or> \<not> topFrameIsJSFunction ?rt"
    by (simp add: topFrameIsJSFunction_def exampleRuntime_def nativeFrame_def)
  have pop: "\<not> False \<or> getStackFrames ?rt \<noteq> []"
    by simp
  have count: "traceAllocations ?rt False None = 1"
    by (simp add: traceAllocations_def topDomains_def savedDomains_def exampleRuntime_def
        nativeFrame_def)
  have named: "namedFrames ?rt False = 1"
    by (simp add: namedFrames_def exampleRuntime_def)
  have outcomes: "allocOutcomes ?rt = [True, True, False]"
    by (simp add: exampleRuntime_def)
  have ok: "False \<notin> set (take (traceAllocations ?rt False None) (allocOutcomes ?rt))"
    unfolding count outcomes by simp
  have fails: "False \<in> set (take (Suc (namedFrames ?rt False))
                               (drop (traceAllocations ?rt False None) (allocOutcomes ?rt)))"
    unfolding count named outcomes by simp
  have entries: "butlast (topEntries False None 0 @ map savedEntry (getStackFrames ?rt))
                   = [nativeEntry]"
    unfolding frames by (simp add: topEntries_def nativeEntry_def)
  have absent: "\<exists>rt'. recordStackTrace ?rt freshError False None 0
              = Some (RETURNED,
                      freshError\<lparr>stacktrace_field := Some [nativeEntry],
                                 funcNames_field := None\<rparr>,
                      rt')
            \<and> thrownValue rt' = None"
    using recordStackTrace_name_failure_not_fatal [OF unset noguard pop ok, of 0] fails
    unfolding entries by simp
  have frames2: "getStackFrames ?rt2 = [nativeFrame, accessorNamedFrame]"
    by (simp add: exampleRuntime_def)
  have outcomes2: "allocOutcomes ?rt2 = []"
    by (simp add: exampleRuntime_def)
  have noguard2: "True \<or> (None :: CodeBlock option) \<noteq> None \<or> \<not> topFrameIsJSFunction ?rt2"
    by simp
  have pop2: "\<not> True \<or> getStackFrames ?rt2 \<noteq> []"
    unfolding frames2 by simp
  have ok2: "False \<notin> set (take (traceAllocations ?rt2 True None) (allocOutcomes ?rt2))"
    unfolding outcomes2 by simp
  have succeeds2: "False \<notin> set (take (Suc (namedFrames ?rt2 True))
                               (drop (traceAllocations ?rt2 True None) (allocOutcomes ?rt2)))"
    unfolding outcomes2 by simp
  have unresolved: "nameUnresolved accessorNamedFrame"
    by (simp add: nameUnresolved_def accessorNamedFrame_def)
  have entries2: "butlast (topEntries True None 0 @ map savedEntry (getStackFrames ?rt2))
                   = [nativeEntry]"
    unfolding frames2
    by (simp add: topEntries_def savedEntry_def nativeFrame_def nativeEntry_def)
  have listed2: "namedFrameList ?rt2 True = [accessorNamedFrame]"
    by (simp add: namedFrameList_def frames2)
  note inst2 = recordStackTrace_name_failure_not_fatal [OF unset noguard2 pop2 ok2,
      of 0 accessorNamedFrame]
  have undefined: "frameFunctionName accessorNamedFrame = UndefinedV"
    using inst2 unresolved by simp
  have present: "\<exists>rt'. recordStackTrace ?rt2 freshError True None 0
              = Some (RETURNED,
                      freshError\<lparr>stacktrace_field := Some [nativeEntry],
                                 funcNames_field := Some [UndefinedV]\<rparr>,
                      rt')"
    using inst2 succeeds2 undefined
    unfolding entries2 listed2 by simp
  show ?thesis
    using unset frames count named outcomes absent frames2 outcomes2 unresolved undefined
      present
    by simp
qed

text \<open>
  C8 does not hold as stated. With two live frames whose names cannot be resolved (a
  callable without a \<open>name\<close> property, and one whose \<open>name\<close> is an accessor) and no
  allocation failing, the capture succeeds and \<open>funcNames_\<close> is not absent: it holds
  \<open>undefined\<close> for both frames.
\<close>

theorem recordStackTrace_name_failure_counterexample:
  "nameUnresolved nativeFrame
   \<and> nameUnresolved accessorNamedFrame
   \<and> recordStackTrace (exampleRuntime [nativeFrame, accessorNamedFrame] []) freshError
        False None 0
       = Some (RETURNED,
               freshError\<lparr>stacktrace_field := Some [nativeEntry, nativeEntry],
                          funcNames_field := Some [UndefinedV, UndefinedV]\<rparr>,
               exampleRuntime [nativeFrame, accessorNamedFrame] [])
   \<and> Some [UndefinedV, UndefinedV] \<noteq> (None :: HermesValue list option)"
  by (simp add: capture_eval nameUnresolved_def exampleRuntime_def nativeFrame_def
      accessorNamedFrame_def freshError_def nativeEntry_def)

end
